theory Spec2Isabelle
  imports Main "HOL-Library.Char_ord" "HOL-Library.List_Lexorder" "HOL-Library.Sublist"
begin

chapter \<open>The model\<close>

section \<open>Python values and exceptions\<close>

text \<open>
  The exceptions that the modelled code can raise. A function that can raise returns a value
  of type \<open>py_error + 'a\<close>, with \<open>Inl\<close> for the exception.
\<close>

datatype py_error =
    RequestException
  | TypeError
  | ValueError
  | AttributeError
  | InvalidOperation
  | OverflowError
  | IntegrityError
  | DoesNotExist
  | MultipleObjectsReturned
  | ValidationError string

section \<open>services/manager\_api.py: the paginated fetch\<close>

text \<open>
  What \<open>_make_request\<close> hands back to \<open>_fetch_all_inventory_items\<close>: it raises, or it
  returns the decoded JSON body (\<open>None\<close> when the body is empty). The loop only looks at the
  truth value of the response, at whether it is a dict with the key \<open>inventoryItems\<close>, and at
  whether it is a list.
\<close>

datatype 'a response =
    Raised py_error
  | PyNone
  | PyDict "'a list option"
  | PyList "'a list"
  | PyOther bool

text \<open>
  \<open>PyDict (Some xs)\<close> is a dict that has the key \<open>inventoryItems\<close>, \<open>PyDict None\<close> a
  dict with other keys only; \<open>PyOther b\<close> is any other JSON value of truth value \<open>b\<close>
  (the empty dict is \<open>PyOther False\<close>). The empty list is falsy.
\<close>

definition page_size :: nat where
  "page_size = 100"

definition max_iterations :: nat where
  "max_iterations = 50"

fun truthy :: "'a response \<Rightarrow> bool" where
  "truthy (Raised e) = False"
| "truthy PyNone = False"
| "truthy (PyDict None) = True"
| "truthy (PyDict (Some xs)) = True"
| "truthy (PyList xs) = (xs \<noteq> [])"
| "truthy (PyOther b) = b"

fun extract_items :: "'a response \<Rightarrow> 'a list" where
  "extract_items (PyDict (Some xs)) = xs"
| "extract_items (PyList xs) = xs"
| "extract_items r = []"

fun raised :: "'a response \<Rightarrow> py_error option" where
  "raised (Raised e) = Some e"
| "raised r = None"

text \<open>
  The \<open>while iterations < max_iterations\<close> loop. The server is a function from the request
  parameters \<open>pageSize\<close> and \<open>skip\<close> to the response. The state is \<open>iterations\<close>, \<open>skip\<close> and
  \<open>all_items\<close>; each \<open>break\<close> and the loop exit return \<open>all_items\<close>, and an exception of the
  request leaves the function (the \<open>except\<close> clause logs and re-raises).
\<close>

function fetch_loop ::
  "(nat \<Rightarrow> nat \<Rightarrow> 'a response) \<Rightarrow> nat \<Rightarrow> nat \<Rightarrow> 'a list \<Rightarrow> py_error + 'a list" where
  "fetch_loop srv iterations skip all_items =
     (if iterations < max_iterations then
        (let response = srv page_size skip in
         if raised response \<noteq> None then Inl (the (raised response))
         else if \<not> truthy response then Inr all_items
         else if extract_items response = [] then Inr all_items
         else if length (extract_items response) < page_size
           then Inr (all_items @ extract_items response)
         else fetch_loop srv (iterations + 1) (skip + page_size)
                (all_items @ extract_items response))
      else Inr all_items)"
  by pat_completeness auto
termination
  by (relation "measure (\<lambda>(srv, iterations, skip, all_items). max_iterations - iterations)") auto

definition fetch_all_inventory_items :: "(nat \<Rightarrow> nat \<Rightarrow> 'a response) \<Rightarrow> py_error + 'a list" where
  "fetch_all_inventory_items srv = fetch_loop srv 0 0 []"

text \<open>A server for the examples: one full page in a dict, then a short page as a bare list.\<close>

definition two_page_server :: "nat \<Rightarrow> nat \<Rightarrow> nat response" where
  "two_page_server ps skip = (if skip = 0 then PyDict (Some (replicate ps 7)) else PyList [8, 9])"

section \<open>Python strings\<close>

text \<open>
  Strings are lists of bytes. \<open>str n\<close> for a natural number, the format \<open>{n:04d}\<close>, the
  last piece of \<open>s.split(sep)\<close> and \<open>int s\<close> on a string of decimal digits. Python's \<open>int\<close>
  also accepts surrounding blanks, a sign and underscores; here such a string is a
  \<open>ValueError\<close>, and no string written by the modelled code has them.
\<close>

definition digit_char :: "nat \<Rightarrow> char" where
  "digit_char d = ''0123456789'' ! d"

definition digit_of :: "char \<Rightarrow> nat" where
  "digit_of c = of_char c - 48"

definition is_digit :: "char \<Rightarrow> bool" where
  "is_digit c = (48 \<le> (of_char c :: nat) \<and> (of_char c :: nat) \<le> 57)"

fun str_nat :: "nat \<Rightarrow> string" where
  "str_nat n = (if n < 10 then [digit_char n] else str_nat (n div 10) @ [digit_char (n mod 10)])"

declare str_nat.simps [simp del]

definition format_04d :: "nat \<Rightarrow> string" where
  "format_04d n = replicate (4 - length (str_nat n)) (CHR ''0'') @ str_nat n"

fun digits_val :: "string \<Rightarrow> nat" where
  "digits_val [] = 0"
| "digits_val (c # cs) = digit_of c * 10 ^ length cs + digits_val cs"

text \<open>
  The decimal digits of a number written with two, four and five places (for numbers below
  100, 10000 and 100000).
\<close>

definition four_digits :: "nat \<Rightarrow> string" where
  "four_digits n = [digit_char (n div 1000), digit_char (n div 100 mod 10),
     digit_char (n div 10 mod 10), digit_char (n mod 10)]"



definition py_int :: "string \<Rightarrow> py_error + nat" where
  "py_int s = (if s \<noteq> [] \<and> list_all is_digit s then Inr (digits_val s) else Inl ValueError)"

definition last_piece :: "char \<Rightarrow> string \<Rightarrow> string" where
  "last_piece sep s = rev (takeWhile (\<lambda>c. c \<noteq> sep) (rev s))"

section \<open>models.py: Lead\<close>

text \<open>
  The fields of \<open>Lead\<close> that \<open>Lead.save\<close>, \<open>lead_pre_save\<close> and \<open>lead_approve_view\<close> read or
  write. The primary key is a UUID that the instance gets when it is built; it is a number
  here. The two \<open>DecimalField\<close>s (\<open>decimal_places = 2\<close>) hold a \<open>decimal.Decimal\<close> or \<open>None\<close>: the
  model forms and the database both produce \<open>Decimal\<close>; the value is counted in hundredths.
  \<open>status\<close> is the related \<open>LeadStatus\<close> row, users are numbers, \<open>approved_at\<close> is a time stamp.
\<close>

record lead_status =
  status_pk :: nat
  status_name :: string
  status_requires_approval :: bool

record lead =
  lead_pk :: nat
  lead_number :: string
  is_deleted :: bool
  estimated_value :: "int option"
  probability :: int
  weighted_value :: "int option"
  lead_status :: "lead_status option"
  requires_approval :: bool
  approved_by :: "nat option"
  approved_at :: "nat option"
  approval_notes :: string

text \<open>\<open>timezone.now()\<close>, as far as \<open>strftime('%Y%m')\<close> reads it: a four-digit year and a month.\<close>

record now =
  year :: nat
  month :: nat

definition strftime_Ym :: "now \<Rightarrow> string" where
  "strftime_Ym today =
     str_nat (year today) @ replicate (2 - length (str_nat (month today))) (CHR ''0'')
       @ str_nat (month today)"

text \<open>
  \<open>Lead.objects.filter(lead_number__startswith=prefix).order_by('-lead_number').first()\<close>:
  the row with the greatest lead number among those that start with the prefix. The column
  is a string, so the order is the order of strings.
\<close>

fun order_by_desc_first :: "lead list \<Rightarrow> lead option" where
  "order_by_desc_first [] = None"
| "order_by_desc_first (x # xs) =
     (case order_by_desc_first xs of
        None \<Rightarrow> Some x
      | Some y \<Rightarrow> if lead_number x < lead_number y then Some y else Some x)"

definition last_lead :: "string \<Rightarrow> lead list \<Rightarrow> lead option" where
  "last_lead pfx db = order_by_desc_first (filter (\<lambda>r. prefix pfx (lead_number r)) db)"

definition lead_prefix :: "now \<Rightarrow> string" where
  "lead_prefix today = ''LEAD-'' @ strftime_Ym today"

definition generate_lead_number :: "now \<Rightarrow> lead list \<Rightarrow> py_error + string" where
  "generate_lead_number today db =
     (let pfx = lead_prefix today in
      case last_lead pfx db of
        None \<Rightarrow> Inr (pfx @ ''-'' @ format_04d 1)
      | Some l \<Rightarrow>
          (case py_int (last_piece (CHR ''-'') (lead_number l)) of
             Inl e \<Rightarrow> Inl e
           | Inr last_number \<Rightarrow> Inr (pfx @ ''-'' @ format_04d (last_number + 1))))"

text \<open>
  \<open>if self.estimated_value and self.probability\<close>: a \<open>Decimal\<close> is true when it is not zero,
  and so is an \<open>int\<close>. Then \<open>self.probability / 100\<close> is a \<open>float\<close> (true division of two
  \<open>int\<close>s), and the product of a \<open>Decimal\<close> and a \<open>float\<close> raises \<open>TypeError\<close>:
  \<open>Decimal.__mul__\<close> and \<open>float.__rmul__\<close> both return \<open>NotImplemented\<close>.
\<close>

definition decimal_truthy :: "int option \<Rightarrow> bool" where
  "decimal_truthy d = (case d of None \<Rightarrow> False | Some v \<Rightarrow> v \<noteq> 0)"

definition calculate_weighted_value :: "lead \<Rightarrow> py_error + lead" where
  "calculate_weighted_value self =
     (if decimal_truthy (estimated_value self) \<and> probability self \<noteq> 0
      then Inl TypeError
      else Inr self)"

definition check_approval_required :: "lead \<Rightarrow> lead" where
  "check_approval_required self =
     (case lead_status self of
        None \<Rightarrow> self
      | Some st \<Rightarrow> if status_requires_approval st then self\<lparr>requires_approval := True\<rparr> else self)"

text \<open>
  \<open>super().save()\<close>: the row is written under its primary key, an update when the key is in
  the table and an insert otherwise; \<open>lead_number\<close> is \<open>unique\<close>, so a second row with the
  same number is an \<open>IntegrityError\<close>.
\<close>

definition Model_save :: "lead list \<Rightarrow> lead \<Rightarrow> py_error + lead list" where
  "Model_save db self =
     (if list_ex (\<lambda>r. lead_pk r \<noteq> lead_pk self \<and> lead_number r = lead_number self) db
        then Inl IntegrityError
      else if list_ex (\<lambda>r. lead_pk r = lead_pk self) db
        then Inr (map (\<lambda>r. if lead_pk r = lead_pk self then self else r) db)
      else Inr (db @ [self]))"

text \<open>
  \<open>Lead.save\<close>. The receivers of \<open>signals.py\<close> are registered when the module is imported;
  \<open>crm/apps.py\<close> has the \<open>ready()\<close> hook that would import it commented out, and no module
  of the sources imports \<open>crm.signals\<close>. So no receiver is connected and \<open>super().save()\<close>
  is the write alone. The result is the new table and the instance as \<open>save\<close> leaves it.
\<close>

definition Lead_save :: "now \<Rightarrow> lead list \<Rightarrow> lead \<Rightarrow> py_error + (lead list \<times> lead)" where
  "Lead_save today db self =
     (case (if lead_number self = []
            then (case generate_lead_number today db of
                    Inl e \<Rightarrow> Inl e
                  | Inr n \<Rightarrow> Inr (self\<lparr>lead_number := n\<rparr>))
            else Inr self) of
        Inl e \<Rightarrow> Inl e
      | Inr self1 \<Rightarrow>
          (case calculate_weighted_value self1 of
             Inl e \<Rightarrow> Inl e
           | Inr self2 \<Rightarrow>
               (let self3 = check_approval_required self2 in
                case Model_save db self3 of
                  Inl e \<Rightarrow> Inl e
                | Inr db' \<Rightarrow> Inr (db', self3))))"

text \<open>
  A lead as a create form without value and probability builds it, and the creation of
  \<open>n\<close> such leads one after the other; the first exception ends the run.
\<close>

definition new_lead :: "nat \<Rightarrow> lead" where
  "new_lead k = \<lparr>lead_pk = k, lead_number = [], is_deleted = False, estimated_value = None,
     probability = 0, weighted_value = None, lead_status = None, requires_approval = False,
     approved_by = None, approved_at = None, approval_notes = []\<rparr>"

fun create_leads :: "now \<Rightarrow> nat \<Rightarrow> lead list \<Rightarrow> py_error + lead list" where
  "create_leads today 0 db = Inr db"
| "create_leads today (Suc n) db =
     (case create_leads today n db of
        Inl e \<Rightarrow> Inl e
      | Inr db1 \<Rightarrow>
          (case Lead_save today db1 (new_lead (Suc n)) of
             Inl e \<Rightarrow> Inl e
           | Inr (db2, l) \<Rightarrow> Inr db2))"

text \<open>
  The row that the \<open>i\<close>-th creation of a month stores when the table had no lead of that
  month before, and the table after \<open>k\<close> such creations.
\<close>

definition numbered :: "now \<Rightarrow> nat \<Rightarrow> lead" where
  "numbered today i = (new_lead i)\<lparr>lead_number := lead_prefix today @ ''-'' @ format_04d i\<rparr>"

definition month_db :: "now \<Rightarrow> nat \<Rightarrow> lead list" where
  "month_db today k = map (numbered today) [1..<Suc k]"

definition january_2024 :: now where
  "january_2024 = \<lparr>year = 2024, month = 1\<rparr>"

section \<open>signals.py and views.py: the approval of a lead\<close>

text \<open>
  \<open>lead_pre_save\<close>, the \<open>pre_save\<close> receiver of \<open>signals.py\<close>, as a function of the table and
  the instance. \<open>instance.pk\<close> is a UUID set when the instance is built, so \<open>if instance.pk\<close>
  always holds; \<open>Lead.objects.get\<close> raises \<open>DoesNotExist\<close> when the row is not in the table.
  Two \<open>LeadStatus\<close> objects are equal when their primary keys are. The receiver is not part
  of \<open>Lead_save\<close>: nothing imports the module that would connect it.
\<close>

definition status_needs_approval :: "lead_status option \<Rightarrow> bool" where
  "status_needs_approval st = (case st of None \<Rightarrow> False | Some x \<Rightarrow> status_requires_approval x)"

definition lead_pre_save :: "lead list \<Rightarrow> lead \<Rightarrow> py_error + lead" where
  "lead_pre_save db instance =
     (case find (\<lambda>r. lead_pk r = lead_pk instance) db of
        None \<Rightarrow> Inl DoesNotExist
      | Some old_lead \<Rightarrow>
          if map_option status_pk (lead_status instance) \<noteq> map_option status_pk (lead_status old_lead)
             \<and> status_needs_approval (lead_status instance)
          then (if approved_by old_lead \<noteq> None
                then Inr (instance\<lparr>requires_approval := True, approved_by := None, approved_at := None\<rparr>)
                else Inr (instance\<lparr>requires_approval := True\<rparr>))
          else Inr instance)"

text \<open>
  \<open>lead_approve_view\<close>: without the permission a redirect; \<open>get_object_or_404\<close> on the leads
  that are not deleted; on a \<open>POST\<close> the three approval fields are assigned and the lead is
  saved; any other method renders the approval page.
\<close>

datatype http_method = GET | POST

datatype http_response = Redirect | Http404 | Render

definition lead_approve_view ::
  "now \<Rightarrow> nat \<Rightarrow> bool \<Rightarrow> nat \<Rightarrow> http_method \<Rightarrow> string \<Rightarrow> lead list \<Rightarrow> nat
     \<Rightarrow> py_error + (lead list \<times> http_response)" where
  "lead_approve_view today clock has_perm user method notes db pk =
     (if \<not> has_perm then Inr (db, Redirect)
      else case find (\<lambda>r. lead_pk r = pk \<and> \<not> is_deleted r) db of
        None \<Rightarrow> Inr (db, Http404)
      | Some lead \<Rightarrow>
          if method = POST
          then (case Lead_save today db
                  (lead\<lparr>approved_by := Some user, approved_at := Some clock,
                     approval_notes := notes\<rparr>) of
                  Inl e \<Rightarrow> Inl e
                | Inr (db', l) \<Rightarrow> Inr (db', Redirect))
          else Inr (db, Render))"

text \<open>
  \<open>LeadAdmin.approve_leads\<close> of \<open>admin.py\<close>, the other place that approves: of the selected
  leads it takes those that require approval and have no approver
  (\<open>queryset.filter(requires_approval=True, approved_by__isnull=True)\<close>), assigns the approver
  and the time to each and saves it. \<open>clock n\<close> is \<open>timezone.now()\<close> in the turn with the
  counter \<open>n\<close>; the result has the table and the counter.
\<close>

fun approve_each ::
  "now \<Rightarrow> (nat \<Rightarrow> nat) \<Rightarrow> nat \<Rightarrow> lead list \<Rightarrow> lead list \<Rightarrow> nat \<Rightarrow> py_error + (lead list \<times> nat)" where
  "approve_each today clock user db [] count = Inr (db, count)"
| "approve_each today clock user db (lead # leads) count =
     (case Lead_save today db (lead\<lparr>approved_by := Some user, approved_at := Some (clock count)\<rparr>) of
        Inl e \<Rightarrow> Inl e
      | Inr (db', l) \<Rightarrow> approve_each today clock user db' leads (count + 1))"

definition approve_leads ::
  "now \<Rightarrow> (nat \<Rightarrow> nat) \<Rightarrow> nat \<Rightarrow> nat list \<Rightarrow> lead list \<Rightarrow> py_error + (lead list \<times> nat)" where
  "approve_leads today clock user queryset db =
     approve_each today clock user db
       (filter (\<lambda>r. requires_approval r \<and> approved_by r = None)
          (filter (\<lambda>r. lead_pk r \<in> set queryset) db)) 0"

text \<open>
  Leads for the examples: one with a value of 1000.00 and a probability of 50, one that user
  1 approved at time 10, and one whose status requires approval.
\<close>

definition valued_lead :: lead where
  "valued_lead = (new_lead 1)\<lparr>estimated_value := Some 100000, probability := 50\<rparr>"

definition approved_lead :: lead where
  "approved_lead = (new_lead 1)\<lparr>lead_number := ''LEAD-202401-0001'', requires_approval := True,
     approved_by := Some 1, approved_at := Some 10, approval_notes := ''ok''\<rparr>"

definition quotation_status :: lead_status where
  "quotation_status = \<lparr>status_pk = 3, status_name = ''Quotation'', status_requires_approval = True\<rparr>"




section \<open>models.py, signals.py and views.py: the employment history of a contact\<close>

text \<open>
  A \<open>Contact\<close> with its current company and its designation (both foreign keys that may be
  null), and a \<open>ContactCompanyHistory\<close> row. The key of a history row is a \<open>BigAutoField\<close>:
  \<open>None\<close> until the row is inserted. Foreign keys are the keys of the rows they point to,
  dates are day numbers.
\<close>

record contact =
  contact_pk :: nat
  current_company :: "nat option"
  designation :: "nat option"

record history =
  history_pk :: "nat option"
  history_contact :: nat
  company :: nat
  history_designation :: "nat option"
  start_date :: "nat option"
  end_date :: "nat option"
  is_current :: bool

record crm_db =
  contacts :: "contact list"
  histories :: "history list"

definition next_pk :: "history list \<Rightarrow> nat" where
  "next_pk hs = Suc (fold max (map (\<lambda>r. case history_pk r of None \<Rightarrow> 0 | Some k \<Rightarrow> k) hs) 0)"

text \<open>
  \<open>ContactCompanyHistory\<close> does not override \<open>save\<close>. \<open>crm/apps.py\<close> leaves the \<open>ready()\<close> hook
  that would import \<open>crm.signals\<close> commented out, and no module of the sources imports it, so
  no \<open>post_save\<close> receiver is connected: saving a row (\<open>save()\<close>, \<open>objects.create\<close>, the admin
  inline) writes the row and nothing else. The result is the new database and the saved
  instance.
\<close>

definition ContactCompanyHistory_save :: "crm_db \<Rightarrow> history \<Rightarrow> crm_db \<times> history" where
  "ContactCompanyHistory_save db instance =
     (case history_pk instance of
        None \<Rightarrow>
          (let row = instance\<lparr>history_pk := Some (next_pk (histories db))\<rparr>
           in (db\<lparr>histories := histories db @ [row]\<rparr>, row))
      | Some k \<Rightarrow>
          if list_ex (\<lambda>r. history_pk r = Some k) (histories db)
          then (db\<lparr>histories := map (\<lambda>r. if history_pk r = Some k then instance else r)
                  (histories db)\<rparr>, instance)
          else (db\<lparr>histories := histories db @ [instance]\<rparr>, instance))"

text \<open>
  \<open>contact_company_history_post_save\<close>, the receiver of \<open>signals.py\<close>, as a function of the
  database after the write and the saved instance: for a current row, every other row of
  the contact is set to not current (\<open>update\<close>), and the contact gets the company and the
  designation of the row and is saved.
\<close>

definition contact_company_history_post_save :: "crm_db \<Rightarrow> history \<Rightarrow> crm_db" where
  "contact_company_history_post_save db instance =
     (if is_current instance
      then db\<lparr>
        histories :=
          map (\<lambda>r. if history_contact r = history_contact instance
                       \<and> history_pk r \<noteq> history_pk instance
                    then r\<lparr>is_current := False\<rparr> else r) (histories db),
        contacts :=
          map (\<lambda>c. if contact_pk c = history_contact instance
                    then c\<lparr>current_company := Some (company instance),
                           designation := history_designation instance\<rparr>
                    else c) (contacts db)\<rparr>
      else db)"

text \<open>
  \<open>ContactUpdateView.form_valid\<close>. The form gives the new company and designation and
  whether \<open>current_company\<close> is among its changed fields. When the company changed, the
  current rows of the contact at the old company are closed and, when there is a new
  company, a current row is created for it; then \<open>super().form_valid\<close> saves the contact with
  the data of the form.
\<close>

record contact_form =
  form_current_company :: "nat option"
  form_designation :: "nat option"
  company_in_changed_data :: bool

definition ContactUpdateView_form_valid ::
  "nat \<Rightarrow> crm_db \<Rightarrow> nat \<Rightarrow> contact_form \<Rightarrow> py_error + crm_db" where
  "ContactUpdateView_form_valid today db pk form =
     (case (if company_in_changed_data form
            then (case find (\<lambda>c. contact_pk c = pk) (contacts db) of
                    None \<Rightarrow> Inl DoesNotExist
                  | Some obj \<Rightarrow>
                      (let old_company = current_company obj;
                           new_company = form_current_company form
                       in if old_company \<noteq> new_company
                          then
                            (let db2 =
                               (case old_company of
                                  None \<Rightarrow> db
                                | Some oc \<Rightarrow>
                                    db\<lparr>histories :=
                                      map (\<lambda>r. if history_contact r = pk \<and> company r = oc
                                                   \<and> is_current r
                                                then r\<lparr>is_current := False, end_date := Some today\<rparr>
                                                else r) (histories db)\<rparr>)
                             in case new_company of
                                  None \<Rightarrow> Inr db2
                                | Some nc \<Rightarrow>
                                    Inr (fst (ContactCompanyHistory_save db2
                                      \<lparr>history_pk = None, history_contact = pk, company = nc,
                                       history_designation = form_designation form,
                                       start_date = Some today, end_date = None,
                                       is_current = True\<rparr>)))
                          else Inr db))
            else Inr db) of
        Inl e \<Rightarrow> Inl e
      | Inr db1 \<Rightarrow>
          Inr (db1\<lparr>contacts :=
                 map (\<lambda>c. if contact_pk c = pk
                           then c\<lparr>current_company := form_current_company form,
                                  designation := form_designation form\<rparr>
                           else c) (contacts db1)\<rparr>))"

text \<open>The current rows of a contact.\<close>

definition current_rows :: "crm_db \<Rightarrow> nat \<Rightarrow> history list" where
  "current_rows db c = filter (\<lambda>r. history_contact r = c \<and> is_current r) (histories db)"

text \<open>
  A database for the examples: contact 1 works at company 10, with the current history row
  for it; and a second row, current as well, for company 20, as the admin inline of the
  contact page submits it.
\<close>

definition employed_db :: crm_db where
  "employed_db = \<lparr>
     contacts = [\<lparr>contact_pk = 1, current_company = Some 10, designation = Some 5\<rparr>],
     histories = [\<lparr>history_pk = Some 1, history_contact = 1, company = 10,
       history_designation = Some 5, start_date = Some 100, end_date = None,
       is_current = True\<rparr>]\<rparr>"

definition second_job :: history where
  "second_job = \<lparr>history_pk = None, history_contact = 1, company = 20,
     history_designation = Some 6, start_date = Some 200, end_date = None, is_current = True\<rparr>"


section \<open>forms.py and validators.py: uploads and the contact form\<close>

text \<open>
  \<open>str.lower\<close>, \<open>str.upper\<close> and \<open>str.strip\<close> on ASCII text: the letters \<open>A\<close> to \<open>Z\<close> and
  \<open>a\<close> to \<open>z\<close> are mapped, every other byte is kept; the blanks that \<open>strip\<close> removes are
  the ASCII characters for which \<open>str.isspace\<close> holds.
\<close>

definition uppercase_letters :: string where
  "uppercase_letters = ''ABCDEFGHIJKLMNOPQRSTUVWXYZ''"

definition lowercase_letters :: string where
  "lowercase_letters = ''abcdefghijklmnopqrstuvwxyz''"

definition ascii_lower :: "char \<Rightarrow> char" where
  "ascii_lower c =
     (case map_of (zip uppercase_letters lowercase_letters) c of
        None \<Rightarrow> c | Some l \<Rightarrow> l)"

definition ascii_upper :: "char \<Rightarrow> char" where
  "ascii_upper c =
     (case map_of (zip lowercase_letters uppercase_letters) c of
        None \<Rightarrow> c | Some u \<Rightarrow> u)"

definition lower :: "string \<Rightarrow> string" where
  "lower s = map ascii_lower s"

definition upper :: "string \<Rightarrow> string" where
  "upper s = map ascii_upper s"

definition is_space :: "char \<Rightarrow> bool" where
  "is_space c = ((of_char c :: nat) \<in> set [9, 10, 11, 12, 13, 28, 29, 30, 31, 32])"

definition strip :: "string \<Rightarrow> string" where
  "strip s = rev (dropWhile is_space (rev (dropWhile is_space s)))"

text \<open>
  An uploaded file, as far as \<open>clean_file\<close> reads it. \<open>if file\<close> holds when there is a file
  and its name is not empty.
\<close>

record uploaded_file =
  file_name :: string
  file_size :: nat

definition allowed_extensions :: "string list" where
  "allowed_extensions =
     [''.pdf'', ''.doc'', ''.docx'', ''.xls'', ''.xlsx'', ''.png'', ''.jpg'', ''.jpeg'']"

definition clean_file :: "uploaded_file option \<Rightarrow> py_error + uploaded_file option" where
  "clean_file file =
     (case file of
        None \<Rightarrow> Inr None
      | Some f \<Rightarrow>
          if file_name f = [] then Inr file
          else if file_size f > 10 * 1024 * 1024
            then Inl (ValidationError ''File size cannot exceed 10MB'')
          else
            (let file_ext = last_piece (CHR ''.'') (lower (file_name f))
             in if ''.'' @ file_ext \<notin> set allowed_extensions
                then Inl (ValidationError (''File type .'' @ file_ext @
                  '' is not allowed. Allowed types: .pdf, .doc, .docx, .xls, .xlsx, .png, .jpg, .jpeg''))
                else Inr file))"

text \<open>
  \<open>validators.validate_file_extension\<close>, the validator of the same repository for the same
  rule (its list has \<open>.txt\<close> in addition): the lower-cased name must end with one of the
  extensions.
\<close>

definition validate_file_extension :: "uploaded_file \<Rightarrow> py_error + unit" where
  "validate_file_extension file =
     (if \<not> list_ex (\<lambda>ext. suffix ext (lower (file_name file)))
            (allowed_extensions @ [''.txt''])
      then Inl (ValidationError
        ''File type not allowed. Allowed types: .pdf, .doc, .docx, .xls, .xlsx, .png, .jpg, .jpeg, .txt'')
      else Inr ())"

text \<open>
  The extension of a file name in the words of the claim: the text from the last dot on.
  A name without a dot has no extension.
\<close>

definition extension :: "string \<Rightarrow> string option" where
  "extension name =
     (if CHR ''.'' \<in> set name then Some (''.'' @ last_piece (CHR ''.'') name) else None)"

definition file_named_pdf :: uploaded_file where
  "file_named_pdf = \<lparr>file_name = ''pdf'', file_size = 1\<rparr>"

text \<open>
  The contact form, as far as phone and e-mail go; every other field is taken to be valid.
  \<open>Contact.phone\<close> is a \<open>CharField(max_length=20)\<close> without \<open>blank=True\<close>, so the form field is
  required; \<open>Contact.email\<close> is an \<open>EmailField(blank=True)\<close>, so the form field is optional.
  Both strip the posted text. Whether a text is a well-formed address is decided by Django's
  \<open>validate_email\<close>, a parameter here.
\<close>

record contact_post =
  post_phone :: string
  post_email :: string

definition phone_field_clean :: "string \<Rightarrow> py_error + string" where
  "phone_field_clean raw =
     (let v = strip raw
      in if v = [] then Inl (ValidationError ''This field is required.'')
         else if length v > 20
           then Inl (ValidationError ''Ensure this value has at most 20 characters.'')
         else Inr v)"

definition email_field_clean :: "(string \<Rightarrow> bool) \<Rightarrow> string \<Rightarrow> py_error + string" where
  "email_field_clean validate_email raw =
     (let v = strip raw
      in if v = [] then Inr []
         else if \<not> validate_email v then Inl (ValidationError ''Enter a valid email address.'')
         else if length v > 254
           then Inl (ValidationError ''Ensure this value has at most 254 characters.'')
         else Inr v)"

definition clean_phone :: "string \<Rightarrow> string" where
  "clean_phone phone =
     (if phone \<noteq> []
      then (let p = filter (\<lambda>c. c \<noteq> CHR ''-'') (filter (\<lambda>c. c \<noteq> CHR '' '') phone)
            in if \<not> prefix ''+'' p then ''+880'' @ dropWhile (\<lambda>c. c = CHR ''0'') p else p)
      else phone)"

definition clean_email :: "string \<Rightarrow> string" where
  "clean_email email = (if email \<noteq> [] then lower email else email)"

text \<open>
  \<open>cleaned_data.get(name)\<close> is \<open>None\<close> when the field has an error. \<open>ContactForm.clean\<close> raises
  when neither value is true.
\<close>

definition str_truthy :: "string option \<Rightarrow> bool" where
  "str_truthy v = (case v of None \<Rightarrow> False | Some s \<Rightarrow> s \<noteq> [])"

definition ContactForm_clean :: "string option \<Rightarrow> string option \<Rightarrow> py_error + unit" where
  "ContactForm_clean phone email =
     (if \<not> str_truthy phone \<and> \<not> str_truthy email
      then Inl (ValidationError ''Please provide at least phone number or email address.'')
      else Inr ())"

text \<open>
  \<open>full_clean\<close>: each field is cleaned and passed to its \<open>clean_<name>\<close> method, then
  \<open>clean\<close> runs on the data that is left, then the model validates the fields that have no
  error yet (the cleaned phone can be longer than the posted one). The form is valid when
  there is no error.
\<close>

definition cleaned_phone :: "contact_post \<Rightarrow> py_error + string" where
  "cleaned_phone post =
     (case phone_field_clean (post_phone post) of
        Inl e \<Rightarrow> Inl e
      | Inr v \<Rightarrow> Inr (clean_phone v))"

definition cleaned_email :: "(string \<Rightarrow> bool) \<Rightarrow> contact_post \<Rightarrow> py_error + string" where
  "cleaned_email validate_email post =
     (case email_field_clean validate_email (post_email post) of
        Inl e \<Rightarrow> Inl e
      | Inr v \<Rightarrow> Inr (clean_email v))"

definition get_cleaned :: "py_error + string \<Rightarrow> string option" where
  "get_cleaned r = (case r of Inl e \<Rightarrow> None | Inr v \<Rightarrow> Some v)"

definition field_errors :: "string \<Rightarrow> py_error + 'a \<Rightarrow> (string \<times> py_error) list" where
  "field_errors name r = (case r of Inl e \<Rightarrow> [(name, e)] | Inr v \<Rightarrow> [])"

definition ContactForm_errors ::
  "(string \<Rightarrow> bool) \<Rightarrow> contact_post \<Rightarrow> (string \<times> py_error) list" where
  "ContactForm_errors validate_email post =
     field_errors ''phone'' (cleaned_phone post)
     @ field_errors ''email'' (cleaned_email validate_email post)
     @ field_errors ''__all__''
         (ContactForm_clean (get_cleaned (cleaned_phone post))
            (get_cleaned (cleaned_email validate_email post)))
     @ (case cleaned_phone post of
          Inl e \<Rightarrow> []
        | Inr v \<Rightarrow>
            if length v > 20
            then [(''phone'', ValidationError ''Ensure this value has at most 20 characters.'')]
            else [])"

definition ContactForm_is_valid :: "(string \<Rightarrow> bool) \<Rightarrow> contact_post \<Rightarrow> bool" where
  "ContactForm_is_valid validate_email post = (ContactForm_errors validate_email post = [])"

text \<open>A stand-in for \<open>validate_email\<close> in the examples, and two submissions.\<close>

definition has_at_sign :: "string \<Rightarrow> bool" where
  "has_at_sign s = (CHR ''@'' \<in> set s)"

definition email_only_post :: contact_post where
  "email_only_post = \<lparr>post_phone = [], post_email = ''a@b.co''\<rparr>"

definition phone_only_post :: contact_post where
  "phone_only_post = \<lparr>post_phone = ''01712 345678'', post_email = []\<rparr>"

section \<open>services/manager\_api.py: the product sync\<close>

text \<open>
  The JSON values of the inventory: \<open>null\<close>, booleans, integers, strings and objects
  (arrays and numbers with a fraction are left out). A record is a dict, an
  association list here; \<open>item.get(key)\<close> gives \<open>None\<close> for a missing key, \<open>a or b\<close> gives \<open>b\<close>
  when \<open>a\<close> is not true.
\<close>

datatype json = JNull | JBool bool | JInt int | JStr string | JObj "(string \<times> json) list"

fun json_truthy :: "json \<Rightarrow> bool" where
  "json_truthy JNull = False"
| "json_truthy (JBool b) = b"
| "json_truthy (JInt n) = (n \<noteq> 0)"
| "json_truthy (JStr s) = (s \<noteq> [])"
| "json_truthy (JObj kvs) = (kvs \<noteq> [])"

definition get_default :: "(string \<times> json) list \<Rightarrow> string \<Rightarrow> json \<Rightarrow> json" where
  "get_default item key d = (case map_of item key of None \<Rightarrow> d | Some v \<Rightarrow> v)"

definition get :: "(string \<times> json) list \<Rightarrow> string \<Rightarrow> json" where
  "get item key = get_default item key JNull"

definition py_or :: "json \<Rightarrow> json \<Rightarrow> json" where
  "py_or a b = (if json_truthy a then a else b)"

text \<open>\<open>sub in s\<close> for two strings.\<close>

fun contains :: "string \<Rightarrow> string \<Rightarrow> bool" where
  "contains sub [] = (sub = [])"
| "contains sub (c # cs) = (prefix sub (c # cs) \<or> contains sub cs)"

text \<open>
  The two library calls on numbers are parameters: \<open>Decimal_str v\<close> is \<open>Decimal(str(v))\<close>, which
  raises \<open>decimal.InvalidOperation\<close> (not a \<open>ValueError\<close>) on text that is no number, and
  \<open>int_of d\<close> is \<open>int(d)\<close> for a \<open>Decimal\<close>, which raises on \<open>NaN\<close> and on infinities.
\<close>

record 'd pylib =
  Decimal_str :: "json \<Rightarrow> py_error + 'd"
  int_of :: "'d \<Rightarrow> py_error + int"

definition safe_decimal :: "'d pylib \<Rightarrow> json \<Rightarrow> py_error + 'd" where
  "safe_decimal lib v =
     (if v = JNull then Decimal_str lib (JInt 0)
      else case Decimal_str lib v of
             Inr d \<Rightarrow> Inr d
           | Inl e \<Rightarrow> if e = ValueError \<or> e = TypeError then Decimal_str lib (JInt 0) else Inl e)"

fun first_price_field :: "(string \<times> json) list \<Rightarrow> string list \<Rightarrow> json option" where
  "first_price_field item [] = None"
| "first_price_field item (key # keys) =
     (case map_of item key of
        None \<Rightarrow> first_price_field item keys
      | Some v \<Rightarrow> if json_truthy v then Some v else first_price_field item keys)"

definition extract_sales_price :: "'d pylib \<Rightarrow> (string \<times> json) list \<Rightarrow> py_error + 'd" where
  "extract_sales_price lib item =
     (case (case map_of item ''salePrice'' of
              Some (JObj sp) \<Rightarrow> map_of sp ''value''
            | _ \<Rightarrow> None) of
        Some v \<Rightarrow> safe_decimal lib v
      | None \<Rightarrow>
          (case first_price_field item [''DefaultSalesUnitPrice'', ''salesPrice'', ''SalesPrice''] of
             Some v \<Rightarrow> safe_decimal lib v
           | None \<Rightarrow> Decimal_str lib (JInt 0)))"

text \<open>
  The tables that the sync writes. A brand is known by its name, a category by its code
  (both columns are unique, and so is the name of a category); of a product the columns
  that \<open>update_or_create\<close> sets. \<open>name\<close> and \<open>description\<close> are not nullable.
\<close>

record category =
  category_code :: string
  category_name :: string

record 'd product =
  sku :: "string option"
  product_name :: json
  brand :: string
  model :: string
  product_category :: string
  description :: json
  price :: 'd
  stock_quantity :: int
  is_active :: bool
  is_from_api :: bool
  mitsubishi_api_id :: json

record 'd catalog =
  brands :: "string list"
  categories :: "category list"
  products :: "'d product list"

definition get_or_create_brand :: "string \<Rightarrow> 'd catalog \<Rightarrow> 'd catalog" where
  "get_or_create_brand name db =
     (if name \<in> set (brands db) then db else db\<lparr>brands := brands db @ [name]\<rparr>)"

text \<open>
  Brand and category of a code. The brand test is \<open>prefix in item_code.upper()\<close>, a substring
  test; the category tests are \<open>startswith\<close> and \<open>in\<close> on the upper-cased code, in the order of
  the \<open>if\<close> chain.
\<close>

definition is_mitsubishi :: "string \<Rightarrow> bool" where
  "is_mitsubishi item_code =
     list_ex (\<lambda>p. contains p (upper item_code)) [''FX'', ''MR'', ''QY'', ''QX'', ''FR-'']"

definition brand_for :: "string \<Rightarrow> string" where
  "brand_for item_code =
     (if is_mitsubishi item_code then ''Mitsubishi Electric'' else ''Manager.io Import'')"

definition category_for :: "string \<Rightarrow> category" where
  "category_for item_code =
     (let code_upper = upper item_code in
      if prefix ''FX'' code_upper \<or> prefix ''Q'' code_upper
        then \<lparr>category_code = ''PLC'', category_name = ''Programmable Logic Controllers''\<rparr>
      else if prefix ''FR-'' code_upper
        then \<lparr>category_code = ''VFD'', category_name = ''Variable Frequency Drives''\<rparr>
      else if prefix ''MR-'' code_upper \<or> contains ''SERVO'' code_upper
        then \<lparr>category_code = ''SERVO'', category_name = ''Servo Systems''\<rparr>
      else if prefix ''GOT'' code_upper \<or> contains ''HMI'' code_upper
        then \<lparr>category_code = ''HMI'', category_name = ''HMI & SCADA''\<rparr>
      else \<lparr>category_code = ''OTHER'', category_name = ''Other Products''\<rparr>)"

text \<open>
  \<open>ProductCategory.objects.get_or_create(code=..., defaults={'name': ...})\<close>: the category
  with the code when there is one; otherwise it is inserted, which is an \<open>IntegrityError\<close>
  when another category has the name already.
\<close>

definition get_or_create_category ::
  "string \<Rightarrow> 'd catalog \<Rightarrow> py_error + ('d catalog \<times> category)" where
  "get_or_create_category item_code db =
     (let wanted = category_for item_code in
      case find (\<lambda>c. category_code c = category_code wanted) (categories db) of
        Some c \<Rightarrow> Inr (db, c)
      | None \<Rightarrow>
          if list_ex (\<lambda>c. category_name c = category_name wanted) (categories db)
          then Inl IntegrityError
          else Inr (db\<lparr>categories := categories db @ [wanted]\<rparr>, wanted))"

text \<open>
  \<open>Product.objects.update_or_create(sku=item_code, defaults=product_data)\<close>: the product with
  the sku is updated, or a product is created when there is none; several products with the
  sku are a \<open>MultipleObjectsReturned\<close>, a \<open>None\<close> for the name or the description is an
  \<open>IntegrityError\<close>. The flag tells whether the product was created. \<open>Product.save\<close> generates
  no sku here, as the sku is set.
\<close>

definition apply_defaults :: "'d product \<Rightarrow> 'd product \<Rightarrow> 'd product" where
  "apply_defaults d p = d\<lparr>sku := sku p\<rparr>"

definition update_or_create ::
  "string \<Rightarrow> 'd product \<Rightarrow> 'd catalog \<Rightarrow> py_error + ('d catalog \<times> bool)" where
  "update_or_create item_code defaults db =
     (case filter (\<lambda>p. sku p = Some item_code) (products db) of
        [] \<Rightarrow>
          if product_name defaults = JNull \<or> description defaults = JNull
          then Inl IntegrityError
          else Inr (db\<lparr>products := products db @ [defaults\<lparr>sku := Some item_code\<rparr>]\<rparr>, True)
      | [p] \<Rightarrow>
          if product_name defaults = JNull \<or> description defaults = JNull
          then Inl IntegrityError
          else Inr (db\<lparr>products :=
                 map (\<lambda>q. if sku q = Some item_code then apply_defaults defaults q else q)
                   (products db)\<rparr>, False)
      | _ \<Rightarrow> Inl MultipleObjectsReturned)"

text \<open>
  The body of the \<open>try\<close> in the \<open>for\<close> loop of \<open>sync_products\<close> for one fetched item. An
  item is any JSON value: the fetch hands on the elements of the list as they are. The first
  statement is \<open>item.get('id')\<close>, an \<open>AttributeError\<close> for an item that is no dict. The outcome
  is \<open>Skipped\<close> for the \<open>continue\<close> of an item without identifier or code, \<open>Failed\<close> for an
  exception, \<open>Created\<close> or \<open>Updated\<close> otherwise. The catalog that comes back holds what was
  written before an exception: a category can be created and the product not.
\<close>

datatype outcome = Skipped | Failed py_error | Created | Updated

definition process_item ::
  "'d pylib \<Rightarrow> 'd catalog \<Rightarrow> json \<Rightarrow> 'd catalog \<times> outcome" where
  "process_item lib db fetched =
     (case fetched of
        JObj item \<Rightarrow>
     (let manager_id = py_or (get item ''id'') (get item ''Key'');
          item_code = py_or (get item ''ItemCode'') (get_default item ''Code'' (JStr []));
          item_name = py_or (get item ''ItemName'') (get_default item ''Name'' (JStr []))
      in if \<not> json_truthy manager_id \<or> \<not> json_truthy item_code then (db, Skipped)
         else case item_code of
           JStr code \<Rightarrow>
             (case safe_decimal lib (py_or (get item ''qtyOnHand'') (get_default item ''qty'' (JInt 0))) of
                Inl e \<Rightarrow> (db, Failed e)
              | Inr quantity \<Rightarrow>
                  (case extract_sales_price lib item of
                     Inl e \<Rightarrow> (db, Failed e)
                   | Inr sales_price \<Rightarrow>
                       (case get_or_create_category code db of
                          Inl e \<Rightarrow> (db, Failed e)
                        | Inr (db1, cat) \<Rightarrow>
                            (case int_of lib quantity of
                               Inl e \<Rightarrow> (db1, Failed e)
                             | Inr stock \<Rightarrow>
                                 (case update_or_create code
                                    \<lparr>sku = None, product_name = item_name,
                                     brand = brand_for code, model = code,
                                     product_category = category_code cat,
                                     description = get_default item ''Description'' (JStr []),
                                     price = sales_price, stock_quantity = stock,
                                     is_active = True, is_from_api = True,
                                     mitsubishi_api_id = manager_id\<rparr> db1 of
                                    Inl e \<Rightarrow> (db1, Failed e)
                                  | Inr (db2, created) \<Rightarrow>
                                      (db2, if created then Created else Updated))))))
         | _ \<Rightarrow> (db, Failed AttributeError))
      | _ \<Rightarrow> (db, Failed AttributeError))"

text \<open>
  The \<open>except Exception\<close> handler of the loop: it logs
  \<open>item.get('ItemCode', 'Unknown')\<close> and continues. For an item that is no dict this \<open>item.get\<close>
  raises an \<open>AttributeError\<close> inside the handler.
\<close>

definition log_item_error :: "json \<Rightarrow> py_error + unit" where
  "log_item_error fetched = (case fetched of JObj item \<Rightarrow> Inr () | _ \<Rightarrow> Inl AttributeError)"

text \<open>
  The loop with its two counters. An exception of the handler leaves the loop; what was
  written to the catalog until then stays written.
\<close>

fun sync_items ::
  "'d pylib \<Rightarrow> 'd catalog \<Rightarrow> json list \<Rightarrow> nat \<Rightarrow> nat \<Rightarrow> 'd catalog \<times> (py_error + nat \<times> nat)" where
  "sync_items lib db [] created_count updated_count = (db, Inr (created_count, updated_count))"
| "sync_items lib db (item # items) created_count updated_count =
     (case process_item lib db item of
        (db1, Created) \<Rightarrow> sync_items lib db1 items (created_count + 1) updated_count
      | (db1, Updated) \<Rightarrow> sync_items lib db1 items created_count (updated_count + 1)
      | (db1, Skipped) \<Rightarrow> sync_items lib db1 items created_count updated_count
      | (db1, Failed e) \<Rightarrow>
          (case log_item_error item of
             Inl e' \<Rightarrow> (db1, Inl e')
           | Inr u \<Rightarrow> sync_items lib db1 items created_count updated_count))"

text \<open>
  \<open>sync_products\<close>: the two brands are fetched or created, the items are fetched, and the
  loop runs. An exception of the fetch or of the loop is logged and raised again by the
  outer \<open>except\<close>. The result has the two counters and the number of items, or, for an empty
  list, zeros and no number; the catalog is what the call has written.
\<close>

record sync_result =
  created :: nat
  updated :: nat
  total_items :: "nat option"

definition sync_products ::
  "'d pylib \<Rightarrow> (nat \<Rightarrow> nat \<Rightarrow> json response) \<Rightarrow> 'd catalog
     \<Rightarrow> 'd catalog \<times> (py_error + sync_result)" where
  "sync_products lib srv db =
     (let db0 = get_or_create_brand ''Mitsubishi Electric''
                  (get_or_create_brand ''Manager.io Import'' db)
      in case fetch_all_inventory_items srv of
           Inl e \<Rightarrow> (db0, Inl e)
         | Inr all_items \<Rightarrow>
             if all_items = []
             then (db0, Inr \<lparr>created = 0, updated = 0, total_items = None\<rparr>)
             else (case sync_items lib db0 all_items 0 0 of
                     (db1, Inl e) \<Rightarrow> (db1, Inl e)
                   | (db1, Inr (c, u)) \<Rightarrow>
                       (db1, Inr \<lparr>created = c, updated = u,
                                  total_items = Some (length all_items)\<rparr>)))"

text \<open>
  The classification in the words of the claim: the brand is Mitsubishi exactly when the
  code starts with one of the five prefixes, and the category follows the prefix alone.
\<close>

definition claimed_mitsubishi :: "string \<Rightarrow> bool" where
  "claimed_mitsubishi item_code =
     list_ex (\<lambda>p. prefix p item_code) [''FX'', ''MR'', ''QY'', ''QX'', ''FR-'']"

definition claimed_category :: "string \<Rightarrow> string" where
  "claimed_category item_code =
     (if prefix ''FX'' item_code \<or> prefix ''Q'' item_code then ''PLC''
      else if prefix ''FR-'' item_code then ''VFD''
      else if prefix ''MR-'' item_code then ''SERVO''
      else if prefix ''GOT'' item_code then ''HMI''
      else ''OTHER'')"

text \<open>
  For the examples: a library whose decimals are integers, an empty catalog, and three
  records, the second with a number for its code (so \<open>item_code.upper()\<close> raises); the
  catalog after the first record; and two servers that answer the first request with a list
  of three items, the second item a \<open>null\<close> for the one and the record with the number for
  the other.
\<close>

definition int_lib :: "int pylib" where
  "int_lib = \<lparr>Decimal_str = (\<lambda>v. case v of JInt n \<Rightarrow> Inr n | _ \<Rightarrow> Inl InvalidOperation),
     int_of = (\<lambda>d. Inr d)\<rparr>"

definition empty_catalog :: "int catalog" where
  "empty_catalog = \<lparr>brands = [], categories = [], products = []\<rparr>"

definition servo_item :: "(string \<times> json) list" where
  "servo_item = [(''id'', JStr ''a1''), (''ItemCode'', JStr ''SERVO-7''),
     (''ItemName'', JStr ''Servo drive''), (''qtyOnHand'', JInt 3)]"

definition broken_item :: "(string \<times> json) list" where
  "broken_item = [(''id'', JStr ''a2''), (''ItemCode'', JInt 123), (''ItemName'', JStr ''Relay'')]"

definition plc_item :: "(string \<times> json) list" where
  "plc_item = [(''Key'', JStr ''a3''), (''Code'', JStr ''fx5u-32mr''),
     (''Name'', JStr ''PLC''), (''qty'', JInt 0)]"

definition servo_catalog :: "int catalog" where
  "servo_catalog =
     \<lparr>brands = [],
      categories = [\<lparr>category_code = ''SERVO'', category_name = ''Servo Systems''\<rparr>],
      products = [\<lparr>sku = Some ''SERVO-7'', product_name = JStr ''Servo drive'',
        brand = ''Manager.io Import'', model = ''SERVO-7'', product_category = ''SERVO'',
        description = JStr [], price = 0, stock_quantity = 3, is_active = True,
        is_from_api = True, mitsubishi_api_id = JStr ''a1''\<rparr>]\<rparr>"

definition null_item_server :: "nat \<Rightarrow> nat \<Rightarrow> json response" where
  "null_item_server ps skip = PyList [JObj servo_item, JNull, JObj plc_item]"

definition broken_item_server :: "nat \<Rightarrow> nat \<Rightarrow> json response" where
  "broken_item_server ps skip = PyList [JObj servo_item, JObj broken_item, JObj plc_item]"

text \<open>
  The same database after the company of contact 1 was set to 30 on the admin contact
  page, which writes no history row.
\<close>

definition edited_db :: crm_db where
  "edited_db = employed_db\<lparr>contacts :=
     [\<lparr>contact_pk = 1, current_company = Some 30, designation = Some 5\<rparr>]\<rparr>"

text \<open>
  The numbers of the leads in the table that start with the prefix of a month, in the order
  of the table, and the number that \<open>generate_lead_number\<close> builds for the counter \<open>i\<close>.
\<close>

definition month_numbers :: "now \<Rightarrow> lead list \<Rightarrow> string list" where
  "month_numbers today db =
     map lead_number (filter (\<lambda>r. prefix (lead_prefix today) (lead_number r)) db)"

definition number_of :: "now \<Rightarrow> nat \<Rightarrow> string" where
  "number_of today i = lead_prefix today @ ''-'' @ format_04d i"



definition valid_date :: "now \<Rightarrow> bool" where
  "valid_date today =
     (1000 \<le> year today \<and> year today \<le> 9999 \<and> 1 \<le> month today \<and> month today \<le> 12)"

definition created_in_month :: "now \<Rightarrow> (now \<times> lead) list \<Rightarrow> nat" where
  "created_in_month today log =
     length (filter (\<lambda>(t, l). year t = year today \<and> month t = month today) log)"

text \<open>
  The invariant of a run: the table holds the leads of the log; no two leads share a number;
  for every month the numbers with its prefix are those of the counters 1 to the number of
  leads created in the month, in the order of creation; and every lead of the log has the
  counter that is one more than the number of leads created in its month before it.
\<close>

definition run_invariant :: "lead list \<Rightarrow> (now \<times> lead) list \<Rightarrow> bool" where
  "run_invariant db log =
     (db = map snd log \<and> distinct (map lead_number db) \<and>
      (\<forall>t. valid_date t \<longrightarrow>
         created_in_month t log \<le> 10000 \<and>
         month_numbers t db = map (number_of t) [1..<Suc (created_in_month t log)]) \<and>
      (\<forall>j<length log. valid_date (fst (log ! j)) \<and>
         created_in_month (fst (log ! j)) (take j log) < 10000 \<and>
         lead_number (snd (log ! j))
           = number_of (fst (log ! j)) (Suc (created_in_month (fst (log ! j)) (take j log)))))"

chapter \<open>Properties\<close>

section \<open>Properties of the paginated fetch\<close>

declare fetch_loop.simps [simp del]

text \<open>
  One turn of the loop on a full page: the response is a dict with the key \<open>inventoryItems\<close>
  or a bare list, with at least \<open>page_size\<close> items, and the loop goes on with the next
  \<open>skip\<close>. So a run of full pages leads to the request after them.
\<close>

lemma fetch_loop_full_page:
  assumes "it < 50"
    and "srv 100 (100 * it) = PyDict (Some xs) \<or> srv 100 (100 * it) = PyList xs"
    and "100 \<le> length xs"
  shows "fetch_loop srv it (100 * it) acc = fetch_loop srv (Suc it) (100 * Suc it) (acc @ xs)"
proof -
  from assms(3) have "xs \<noteq> []" by auto
  with assms show ?thesis
    by (subst fetch_loop.simps)
      (auto simp: page_size_def max_iterations_def Let_def add.commute)
qed

lemma fetch_loop_full_pages:
  assumes "length pages \<le> 50"
    and "\<forall>i<length pages.
           (srv 100 (100 * i) = PyDict (Some (pages ! i)) \<or> srv 100 (100 * i) = PyList (pages ! i)) \<and>
           100 \<le> length (pages ! i)"
  shows "it \<le> length pages \<Longrightarrow>
    fetch_loop srv it (100 * it) acc
      = fetch_loop srv (length pages) (100 * length pages) (acc @ concat (drop it pages))"
proof (induction "length pages - it" arbitrary: it acc)
  case 0
  then show ?case by simp
next
  case (Suc k)
  then have lt: "it < length pages" by simp
  with assms(1) have it: "it < 50" by simp
  from assms(2) lt have r: "srv 100 (100 * it) = PyDict (Some (pages ! it)) \<or>
      srv 100 (100 * it) = PyList (pages ! it)" and f: "100 \<le> length (pages ! it)" by simp_all
  have "fetch_loop srv it (100 * it) acc
      = fetch_loop srv (Suc it) (100 * Suc it) (acc @ pages ! it)"
    using it r f by (rule fetch_loop_full_page)
  also have "\<dots> = fetch_loop srv (length pages) (100 * length pages)
      ((acc @ pages ! it) @ concat (drop (Suc it) pages))"
    using Suc(2) lt by (intro Suc(1)) simp_all
  also have "(acc @ pages ! it) @ concat (drop (Suc it) pages) = acc @ concat (drop it pages)"
    using lt by (simp add: Cons_nth_drop_Suc [symmetric])
  finally show ?case .
qed

text \<open>
  The loop stops at a short page, which it keeps, at a response without items, and at the cap.
\<close>

lemma fetch_loop_stop:
  assumes "it < 50"
    and "(srv 100 (100 * it) = PyDict (Some short) \<or> srv 100 (100 * it) = PyList short) \<and>
           length short < 100 \<or>
         (srv 100 (100 * it) = PyNone \<or> srv 100 (100 * it) = PyDict None \<or>
            (\<exists>b. srv 100 (100 * it) = PyOther b)) \<and> short = []"
  shows "fetch_loop srv it (100 * it) acc = Inr (acc @ short)"
  using assms
  by (subst fetch_loop.simps)
    (auto simp: page_size_def max_iterations_def Let_def)

lemma fetch_loop_cap: "fetch_loop srv 50 skip acc = Inr acc"
  by (subst fetch_loop.simps) (simp add: max_iterations_def)

text \<open>
  C5. The fetch loop terminates (\<open>fetch_loop\<close> is a total function whose measure
  \<open>max_iterations - iterations\<close> decreases). It asks for the pages with \<open>pageSize = 100\<close> and
  \<open>skip = 0, 100, 200, \<dots>\<close>. When the first responses carry the full pages \<open>pages\<close> (each a
  dict with the key \<open>inventoryItems\<close> or a bare list, of 100 items or more), and the response
  after them carries a page \<open>short\<close> of fewer than 100 items or has no items at all, the loop
  returns the items of the full pages followed by those of the short page; at 50 full pages
  it stops without a further request and returns their items. The responses to requests that
  the loop does not make play no role.
\<close>

theorem fetch_all_inventory_items_pages:
  assumes "length pages \<le> 50"
    and "\<forall>i<length pages.
           (srv 100 (100 * i) = PyDict (Some (pages ! i)) \<or> srv 100 (100 * i) = PyList (pages ! i)) \<and>
           100 \<le> length (pages ! i)"
    and "length pages < 50 \<longrightarrow>
           (srv 100 (100 * length pages) = PyDict (Some short) \<or>
              srv 100 (100 * length pages) = PyList short) \<and> length short < 100 \<or>
           (srv 100 (100 * length pages) = PyNone \<or> srv 100 (100 * length pages) = PyDict None \<or>
              (\<exists>b. srv 100 (100 * length pages) = PyOther b)) \<and> short = []"
    and "length pages = 50 \<longrightarrow> short = []"
  shows "fetch_all_inventory_items srv = Inr (concat pages @ short)"
proof -
  have "fetch_all_inventory_items srv
      = fetch_loop srv (length pages) (100 * length pages) (concat pages)"
    using assms(1,2) fetch_loop_full_pages [of pages srv 0 "[]"]
    by (simp add: fetch_all_inventory_items_def)
  also have "\<dots> = Inr (concat pages @ short)"
  proof (cases "length pages < 50")
    case True
    with assms(3) show ?thesis by (intro fetch_loop_stop) simp_all
  next
    case False
    with assms(1,4) have "length pages = 50" "short = []" by simp_all
    then show ?thesis by (simp add: fetch_loop_cap)
  qed
  finally show ?thesis .
qed

theorem fetch_all_inventory_items_pages_witness:
  "length [replicate 100 (7::nat)] \<le> 50 \<and>
   two_page_server 100 (100 * 0) = PyDict (Some ([replicate 100 7] ! 0)) \<and>
   100 \<le> length ([replicate 100 (7::nat)] ! 0) \<and>
   two_page_server 100 (100 * length [replicate 100 (7::nat)]) = PyList [8, 9] \<and>
   length [8, 9 :: nat] < 100 \<and>
   fetch_all_inventory_items two_page_server = Inr (replicate 100 7 @ [8, 9])"
  using fetch_all_inventory_items_pages [of "[replicate 100 7]" two_page_server "[8, 9]"]
  by (simp add: two_page_server_def)

text \<open>
  An exception of a request ends the loop as well: the function raises it again.
\<close>

lemma fetch_loop_raised:
  assumes "length pages < 50"
    and "\<forall>i<length pages.
           (srv 100 (100 * i) = PyDict (Some (pages ! i)) \<or> srv 100 (100 * i) = PyList (pages ! i)) \<and>
           100 \<le> length (pages ! i)"
    and "srv 100 (100 * length pages) = Raised e"
  shows "fetch_all_inventory_items srv = Inl e"
proof -
  from assms(1) have le: "length pages \<le> 50" by simp
  have "fetch_all_inventory_items srv
      = fetch_loop srv (length pages) (100 * length pages) (concat pages)"
    using le assms(2) fetch_loop_full_pages [of pages srv 0 "[]"]
    by (simp add: fetch_all_inventory_items_def)
  also have "\<dots> = Inl e"
    using assms(1,3) by (subst fetch_loop.simps) (simp add: page_size_def max_iterations_def)
  finally show ?thesis .
qed

text \<open>
  Every sequence of responses is of one of these shapes: some number of full pages, at most
  50, and then the cap, an exception, a short page or a response without items.
\<close>

lemma every_run_has_this_shape:
  fixes srv :: "nat \<Rightarrow> nat \<Rightarrow> 'a response"
  shows "\<exists>pages. length pages \<le> 50 \<and>
     (\<forall>i<length pages.
        (srv 100 (100 * i) = PyDict (Some (pages ! i)) \<or> srv 100 (100 * i) = PyList (pages ! i)) \<and>
        100 \<le> length (pages ! i)) \<and>
     (length pages = 50 \<or>
      (\<exists>e. srv 100 (100 * length pages) = Raised e) \<or>
      (\<exists>short.
         (srv 100 (100 * length pages) = PyDict (Some short) \<or>
            srv 100 (100 * length pages) = PyList short) \<and> length short < 100 \<or>
         (srv 100 (100 * length pages) = PyNone \<or> srv 100 (100 * length pages) = PyDict None \<or>
            (\<exists>b. srv 100 (100 * length pages) = PyOther b)) \<and> short = []))"
proof -
  define full :: "'a response \<Rightarrow> 'a list \<Rightarrow> bool" where
    "full r xs \<longleftrightarrow> (r = PyDict (Some xs) \<or> r = PyList xs) \<and> 100 \<le> length xs" for r xs
  define stops :: "'a response \<Rightarrow> bool" where
    "stops r \<longleftrightarrow> (\<exists>e. r = Raised e) \<or>
      (\<exists>short. (r = PyDict (Some short) \<or> r = PyList short) \<and> length short < 100 \<or>
         (r = PyNone \<or> r = PyDict None \<or> (\<exists>b. r = PyOther b)) \<and> short = [])" for r
  have dich: "stops r \<or> (\<exists>xs. full r xs)" for r
  proof (cases r)
    case (PyDict d)
    then show ?thesis
      by (cases d) (auto simp: full_def stops_def not_less)
  next
    case (PyList xs)
    then show ?thesis
      by (cases "length xs < 100") (auto simp: full_def stops_def not_less)
  qed (auto simp: stops_def)
  have main: "k \<le> 50 \<Longrightarrow> \<exists>pages. length pages \<le> k \<and>
      (\<forall>i<length pages. full (srv 100 (100 * i)) (pages ! i)) \<and>
      (length pages = k \<or> stops (srv 100 (100 * length pages)))" for k
  proof (induction k)
    case 0
    show ?case by (intro exI [of _ "[]"]) simp
  next
    case (Suc k)
    then obtain pages where p: "length pages \<le> k"
      "\<forall>i<length pages. full (srv 100 (100 * i)) (pages ! i)"
      "length pages = k \<or> stops (srv 100 (100 * length pages))" by auto
    show ?case
    proof (cases "stops (srv 100 (100 * length pages))")
      case True
      with p show ?thesis by (intro exI [of _ pages]) simp
    next
      case False
      with p(3) have k: "length pages = k" by simp
      from False dich obtain xs where xs: "full (srv 100 (100 * length pages)) xs" by blast
      have "\<forall>i<length (pages @ [xs]). full (srv 100 (100 * i)) ((pages @ [xs]) ! i)"
        using p(2) xs by (simp add: nth_append less_Suc_eq)
      with k show ?thesis by (intro exI [of _ "pages @ [xs]"]) simp
    qed
  qed
  from main [of 50] show ?thesis unfolding full_def stops_def by simp
qed

section \<open>Properties of the lead numbers\<close>

lemma digit_cases: "d < 10 \<Longrightarrow> d = 0 \<or> d = 1 \<or> d = 2 \<or> d = 3 \<or> d = 4 \<or> d = 5 \<or> d = 6 \<or> d = 7 \<or> d = 8 \<or> d = (9::nat)"
  by arith

lemma digit_char_is_digit: "d < 10 \<Longrightarrow> is_digit (digit_char d)"
  using digit_cases [of d] by (auto simp: digit_char_def is_digit_def)

lemma digit_of_digit_char: "d < 10 \<Longrightarrow> digit_of (digit_char d) = d"
  using digit_cases [of d] by (auto simp: digit_char_def digit_of_def)

lemma digit_char_less: "d < 10 \<Longrightarrow> e < 10 \<Longrightarrow> digit_char d < digit_char e \<longleftrightarrow> d < e"
  using digit_cases [of d] digit_cases [of e] by (auto simp: digit_char_def)

lemma digit_char_eq: "d < 10 \<Longrightarrow> e < 10 \<Longrightarrow> digit_char d = digit_char e \<longleftrightarrow> d = e"
  using digit_of_digit_char by metis

lemma digit_char_not_dash: "d < 10 \<Longrightarrow> digit_char d \<noteq> CHR ''-''"
  using digit_cases [of d] by (auto simp: digit_char_def)

lemma str_nat_lt10: "n < 10 \<Longrightarrow> str_nat n = [digit_char n]"
  by (subst str_nat.simps) simp

lemma str_nat_ge10: "10 \<le> n \<Longrightarrow> str_nat n = str_nat (n div 10) @ [digit_char (n mod 10)]"
  by (subst str_nat.simps) simp

lemma digit_char_0: "digit_char 0 = CHR ''0''"
  by (simp add: digit_char_def)

lemma replicate_small:
  "replicate 3 c = [c, c, c]" "replicate 2 c = [c, c]" "replicate (Suc 0) c = [c]"
  by (simp_all add: numeral_3_eq_3 numeral_2_eq_2)

lemma format_04d_four: "n < 10000 \<Longrightarrow> format_04d n = four_digits n"
proof -
  assume n: "n < 10000"
  have d2: "n div 10 div 10 = n div 100" and d3: "n div 10 div 10 div 10 = n div 1000"
    by (simp_all add: div_mult2_eq)
  consider "n < 10" | "10 \<le> n" "n < 100" | "100 \<le> n" "n < 1000" | "1000 \<le> n" by linarith
  then show ?thesis
  proof cases
    case 1
    then have "str_nat n = [digit_char n]" by (rule str_nat_lt10)
    moreover from 1 have "n div 1000 = 0" "n div 100 = 0" "n div 10 = 0" "n mod 10 = n" by auto
    ultimately show ?thesis
      by (simp add: format_04d_def four_digits_def digit_char_0 replicate_small)
  next
    case 2
    then have "n div 10 < 10" by auto
    then have "str_nat n = [digit_char (n div 10), digit_char (n mod 10)]"
      using 2 by (simp add: str_nat_ge10 str_nat_lt10)
    moreover from 2 have "n div 1000 = 0" "n div 100 = 0" "n div 10 mod 10 = n div 10" by auto
    ultimately show ?thesis
      by (simp add: format_04d_def four_digits_def digit_char_0 replicate_small)
  next
    case 3
    then have a: "10 \<le> n" "10 \<le> n div 10" "n div 100 < 10" by auto
    have "str_nat n = str_nat (n div 10) @ [digit_char (n mod 10)]"
      using a by (simp add: str_nat_ge10)
    also have "str_nat (n div 10) = str_nat (n div 100) @ [digit_char (n div 10 mod 10)]"
      using a str_nat_ge10 [of "n div 10"] by (simp add: d2)
    also have "str_nat (n div 100) = [digit_char (n div 100)]"
      using a by (simp add: str_nat_lt10)
    finally have "str_nat n = [digit_char (n div 100), digit_char (n div 10 mod 10), digit_char (n mod 10)]"
      by simp
    moreover from 3 have "n div 1000 = 0" "n div 100 mod 10 = n div 100" by auto
    ultimately show ?thesis
      by (simp add: format_04d_def four_digits_def digit_char_0 replicate_small)
  next
    case 4
    with n have a: "10 \<le> n" "10 \<le> n div 10" "10 \<le> n div 100" "n div 1000 < 10" by auto
    have "str_nat n = str_nat (n div 10) @ [digit_char (n mod 10)]"
      using a by (simp add: str_nat_ge10)
    also have "str_nat (n div 10) = str_nat (n div 100) @ [digit_char (n div 10 mod 10)]"
      using a str_nat_ge10 [of "n div 10"] by (simp add: d2)
    also have "str_nat (n div 100) = str_nat (n div 1000) @ [digit_char (n div 100 mod 10)]"
    proof -
      have "n div 100 div 10 = n div 1000" by (simp add: div_mult2_eq)
      then show ?thesis using a str_nat_ge10 [of "n div 100"] by simp
    qed
    also have "str_nat (n div 1000) = [digit_char (n div 1000)]"
      using a by (simp add: str_nat_lt10)
    finally have "str_nat n = [digit_char (n div 1000), digit_char (n div 100 mod 10),
        digit_char (n div 10 mod 10), digit_char (n mod 10)]"
      by simp
    then show ?thesis
      by (simp add: format_04d_def four_digits_def)
  qed
qed

lemma format_04d_10000: "format_04d 10000 = ''10000''"
  by (simp add: format_04d_def digit_char_def str_nat.simps)

lemma strftime_jan: "strftime_Ym january_2024 = ''202401''"
  by (simp add: strftime_Ym_def january_2024_def digit_char_def str_nat.simps replicate_small)


lemma decimal_expansion:
  fixes n :: nat
  shows "n = 1000 * (n div 1000) + 100 * (n div 100 mod 10) + 10 * (n div 10 mod 10) + n mod 10"
proof -
  define q1 where "q1 = n div 10"
  define q2 where "q2 = n div 100"
  define q3 where "q3 = n div 1000"
  define r0 where "r0 = n mod 10"
  define r1 where "r1 = n div 10 mod 10"
  define r2 where "r2 = n div 100 mod 10"
  have e1: "n = q1 * 10 + r0" unfolding q1_def r0_def by simp
  have "n div 10 div 10 = n div 100" by (simp add: div_mult2_eq)
  then have e2: "q1 = q2 * 10 + r1" unfolding q1_def q2_def r1_def
    by (metis div_mult_mod_eq)
  have "n div 100 div 10 = n div 1000" by (simp add: div_mult2_eq)
  then have e3: "q2 = q3 * 10 + r2" unfolding q2_def q3_def r2_def
    by (metis div_mult_mod_eq)
  have "n = 1000 * q3 + 100 * r2 + 10 * r1 + r0"
    using e1 e2 e3 by linarith
  then show ?thesis unfolding q3_def r0_def r1_def r2_def .
qed

lemma four_digits_less:
  assumes "n < m" "m < 10000"
  shows "four_digits n < four_digits m"
proof -
  define a where "a = n div 1000"
  define b where "b = n div 100 mod 10"
  define c where "c = n div 10 mod 10"
  define d where "d = n mod 10"
  define a' where "a' = m div 1000"
  define b' where "b' = m div 100 mod 10"
  define c' where "c' = m div 10 mod 10"
  define d' where "d' = m mod 10"
  note defs = a_def b_def c_def d_def a'_def b'_def c'_def d'_def
  have "n div 1000 < 10" "m div 1000 < 10" using assms by auto
  then have bn: "a < 10" "b < 10" "c < 10" "d < 10" "a' < 10" "b' < 10" "c' < 10" "d' < 10"
    by (simp_all add: defs)
  have n: "n = 1000 * a + 100 * b + 10 * c + d" unfolding defs by (rule decimal_expansion)
  have m: "m = 1000 * a' + 100 * b' + 10 * c' + d'" unfolding defs by (rule decimal_expansion)
  have "1000 * a + 100 * b + 10 * c + d < 1000 * a' + 100 * b' + 10 * c' + d'"
    using assms(1) n m by simp
  then have "a < a' \<or> (a = a' \<and> (b < b' \<or> (b = b' \<and> (c < c' \<or> (c = c' \<and> d < d')))))"
    using bn by linarith
  then show ?thesis
    unfolding four_digits_def defs [symmetric]
    using bn by (auto simp: digit_char_less digit_char_eq)
qed

lemma digits_val_four: "n < 10000 \<Longrightarrow> digits_val (four_digits n) = n"
proof -
  assume "n < 10000"
  then have "n div 1000 < 10" by auto
  then have "digits_val (four_digits n)
      = 1000 * (n div 1000) + 100 * (n div 100 mod 10) + 10 * (n div 10 mod 10) + n mod 10"
    unfolding four_digits_def by (simp add: digit_of_digit_char)
  also have "\<dots> = n" by (rule decimal_expansion [symmetric])
  finally show ?thesis .
qed

lemma four_digits_all_digit: "n < 10000 \<Longrightarrow> list_all is_digit (four_digits n)"
  by (auto simp: four_digits_def intro!: digit_char_is_digit)

lemma four_digits_no_dash: "n < 10000 \<Longrightarrow> CHR ''-'' \<notin> set (four_digits n)"
proof -
  assume "n < 10000"
  then have "n div 1000 < 10" by auto
  then show ?thesis
    using digit_char_not_dash [of "n div 1000"] digit_char_not_dash [of "n div 100 mod 10"]
      digit_char_not_dash [of "n div 10 mod 10"] digit_char_not_dash [of "n mod 10"]
    by (auto simp: four_digits_def)
qed

lemma last_piece_append:
  "sep \<notin> set ds \<Longrightarrow> last_piece sep (xs @ sep # ds) = ds"
proof -
  assume "sep \<notin> set ds"
  then have "takeWhile (\<lambda>c. c \<noteq> sep) (rev ds @ sep # rev xs) = rev ds"
    by (subst takeWhile_append2) auto
  then show ?thesis by (simp add: last_piece_def)
qed


lemma append_less_append: "(xs @ ys < xs @ zs) = (ys < (zs :: 'a :: linorder list))"
  by (induction xs) simp_all

lemma order_by_desc_first_None: "order_by_desc_first xs = None \<longleftrightarrow> xs = []"
  by (induction xs) (auto split: option.splits)

lemma order_by_desc_first_max:
  "order_by_desc_first xs = Some m \<Longrightarrow>
     m \<in> set xs \<and> (\<forall>y\<in>set xs. lead_number y \<le> lead_number m)"
proof (induction xs arbitrary: m)
  case Nil
  then show ?case by simp
next
  case (Cons x xs)
  show ?case
  proof (cases "order_by_desc_first xs")
    case None
    then have "xs = []" by (simp add: order_by_desc_first_None)
    with Cons.prems show ?thesis by simp
  next
    case (Some y)
    from Cons.IH [OF Some] have y: "y \<in> set xs" "\<forall>z\<in>set xs. lead_number z \<le> lead_number y"
      by simp_all
    show ?thesis
    proof (cases "lead_number x < lead_number y")
      case True
      with Some Cons.prems have "m = y" by simp
      with y True show ?thesis by auto
    next
      case False
      with Some Cons.prems have "m = x" by simp
      with y False show ?thesis by (auto intro: order_trans)
    qed
  qed
qed

lemma lead_number_numbered:
  "lead_number (numbered today i) = lead_prefix today @ ''-'' @ format_04d i"
  by (simp add: numbered_def)

lemma lead_pk_numbered: "lead_pk (numbered today i) = i"
  by (simp add: numbered_def new_lead_def)

lemma numbered_less:
  "i < j \<Longrightarrow> j < 10000 \<Longrightarrow> lead_number (numbered today i) < lead_number (numbered today j)"
  by (simp add: lead_number_numbered append_less_append format_04d_four four_digits_less
      del: append_assoc)

lemma four_digits_9999: "four_digits 9999 = ''9999''"
  by (simp add: four_digits_def digit_char_def)

lemma numbered_10000_less:
  "lead_number (numbered today 10000) < lead_number (numbered today 9999)"
  by (simp add: lead_number_numbered append_less_append format_04d_four format_04d_10000
      four_digits_9999 del: append_assoc)

lemma numbered_inj:
  assumes "lead_number (numbered today i) = lead_number (numbered today j)" "i \<le> 10000" "j \<le> 10000"
  shows "i = j"
proof -
  from assms(1) have eq: "format_04d i = format_04d j" by (simp add: lead_number_numbered)
  consider "i < 10000" "j < 10000" | "i = 10000" "j < 10000" | "i < 10000" "j = 10000" | "i = 10000" "j = 10000"
    using assms(2,3) by linarith
  then show ?thesis
  proof cases
    case 1
    with eq have "digits_val (four_digits i) = digits_val (four_digits j)" by (simp add: format_04d_four)
    with 1 show ?thesis by (simp add: digits_val_four)
  next
    case 2
    with eq have "length ''10000'' = length (four_digits j)" by (simp add: format_04d_four format_04d_10000)
    then show ?thesis by (simp add: four_digits_def)
  next
    case 3
    with eq have "length (four_digits i) = length ''10000''" by (simp add: format_04d_four format_04d_10000)
    then show ?thesis by (simp add: four_digits_def)
  next
    case 4
    then show ?thesis by simp
  qed
qed

lemma filter_month_db:
  "filter (\<lambda>r. prefix (lead_prefix today) (lead_number r)) (month_db today k) = month_db today k"
  by (auto simp: month_db_def filter_id_conv lead_number_numbered simp del: append_assoc)

lemma last_lead_month_db:
  assumes "1 \<le> k" "k < 10000"
  shows "last_lead (lead_prefix today) (month_db today k) = Some (numbered today k)"
proof -
  have ne: "month_db today k \<noteq> []" using assms by (simp add: month_db_def)
  then obtain m where m: "order_by_desc_first (month_db today k) = Some m"
    using order_by_desc_first_None [of "month_db today k"] by (cases "order_by_desc_first (month_db today k)") auto
  from order_by_desc_first_max [OF m]
  have mem: "m \<in> set (month_db today k)"
    and mx: "\<forall>y\<in>set (month_db today k). lead_number y \<le> lead_number m" by simp_all
  from mem obtain i where i: "m = numbered today i" "1 \<le> i" "i \<le> k" by (auto simp: month_db_def)
  have "numbered today k \<in> set (month_db today k)" using assms by (auto simp: month_db_def)
  with mx have le: "lead_number (numbered today k) \<le> lead_number m" by blast
  have "i = k"
  proof (rule ccontr)
    assume "i \<noteq> k"
    with i have "i < k" by simp
    with assms have "lead_number (numbered today i) < lead_number (numbered today k)"
      by (intro numbered_less) simp_all
    with le i show False by simp
  qed
  with m i show ?thesis by (simp add: last_lead_def filter_month_db)
qed

lemma last_lead_month_db_10000:
  "last_lead (lead_prefix today) (month_db today 10000) = Some (numbered today 9999)"
proof -
  have ne: "month_db today 10000 \<noteq> []" by (simp add: month_db_def)
  then obtain m where m: "order_by_desc_first (month_db today 10000) = Some m"
    using order_by_desc_first_None [of "month_db today 10000"]
    by (cases "order_by_desc_first (month_db today 10000)") auto
  from order_by_desc_first_max [OF m]
  have mem: "m \<in> set (month_db today 10000)"
    and mx: "\<forall>y\<in>set (month_db today 10000). lead_number y \<le> lead_number m" by simp_all
  from mem obtain i where i: "m = numbered today i" "1 \<le> i" "i \<le> 10000" by (auto simp: month_db_def)
  have "numbered today 9999 \<in> set (month_db today 10000)" by (auto simp: month_db_def)
  with mx have le: "lead_number (numbered today 9999) \<le> lead_number m" by blast
  have "i = 9999"
  proof (rule ccontr)
    assume ne: "i \<noteq> 9999"
    show False
    proof (cases "i = 10000")
      case True
      with le i numbered_10000_less [of today] show False by simp
    next
      case False
      with ne i have "i < 9999" by simp
      then have "lead_number (numbered today i) < lead_number (numbered today 9999)"
        by (intro numbered_less) simp_all
      with le i show False by simp
    qed
  qed
  with m i show ?thesis by (simp add: last_lead_def filter_month_db)
qed


lemma py_int_number:
  "i < 10000 \<Longrightarrow> py_int (last_piece (CHR ''-'') (lead_number (numbered today i))) = Inr i"
proof -
  assume i: "i < 10000"
  have "last_piece (CHR ''-'') (lead_prefix today @ CHR ''-'' # four_digits i) = four_digits i"
    using i by (intro last_piece_append four_digits_no_dash)
  then have "last_piece (CHR ''-'') (lead_number (numbered today i)) = four_digits i"
    using i by (simp add: lead_number_numbered format_04d_four)
  moreover have "four_digits i \<noteq> []" by (simp add: four_digits_def)
  ultimately show ?thesis
    using i by (simp add: py_int_def four_digits_all_digit digits_val_four)
qed

lemma generate_lead_number_month_db:
  assumes "k < 10000"
  shows "generate_lead_number today (month_db today k)
    = Inr (lead_prefix today @ ''-'' @ format_04d (Suc k))"
proof (cases "k = 0")
  case True
  then show ?thesis
    by (simp add: generate_lead_number_def month_db_def last_lead_def)
next
  case False
  with assms have "last_lead (lead_prefix today) (month_db today k) = Some (numbered today k)"
    by (intro last_lead_month_db) simp_all
  then show ?thesis
    using assms by (simp add: generate_lead_number_def py_int_number)
qed

lemma Model_save_month_db:
  assumes "k < 10000"
  shows "Model_save (month_db today k) (numbered today (Suc k)) = Inr (month_db today (Suc k))"
proof -
  have "\<not> list_ex (\<lambda>r. lead_pk r \<noteq> lead_pk (numbered today (Suc k))
      \<and> lead_number r = lead_number (numbered today (Suc k))) (month_db today k)"
  proof
    assume "list_ex (\<lambda>r. lead_pk r \<noteq> lead_pk (numbered today (Suc k))
      \<and> lead_number r = lead_number (numbered today (Suc k))) (month_db today k)"
    then obtain i where "1 \<le> i" "i \<le> k"
      "lead_number (numbered today i) = lead_number (numbered today (Suc k))"
      by (auto simp: list_ex_iff month_db_def)
    with assms numbered_inj [of today i "Suc k"] show False by simp
  qed
  moreover have "\<not> list_ex (\<lambda>r. lead_pk r = lead_pk (numbered today (Suc k))) (month_db today k)"
    by (auto simp: list_ex_iff month_db_def lead_pk_numbered)
  ultimately show ?thesis
    by (simp add: Model_save_def month_db_def)
qed

lemma Lead_save_month_db:
  assumes "k < 10000"
  shows "Lead_save today (month_db today k) (new_lead (Suc k))
    = Inr (month_db today (Suc k), numbered today (Suc k))"
proof -
  have n: "(new_lead (Suc k))\<lparr>lead_number := lead_prefix today @ ''-'' @ format_04d (Suc k)\<rparr>
      = numbered today (Suc k)"
    by (simp add: numbered_def)
  have c: "calculate_weighted_value (numbered today (Suc k)) = Inr (numbered today (Suc k))"
    by (simp add: calculate_weighted_value_def numbered_def new_lead_def decimal_truthy_def)
  have a: "check_approval_required (numbered today (Suc k)) = numbered today (Suc k)"
    by (simp add: check_approval_required_def numbered_def new_lead_def)
  have e: "lead_number (new_lead (Suc k)) = []" by (simp add: new_lead_def)
  show ?thesis
    unfolding Lead_save_def
    by (simp add: e generate_lead_number_month_db [OF assms] n [simplified] c a
        Model_save_month_db [OF assms])
qed

lemma create_leads_month_db:
  "k \<le> 10000 \<Longrightarrow> create_leads today k [] = Inr (month_db today k)"
proof (induction k)
  case 0
  then show ?case by (simp add: month_db_def)
next
  case (Suc k)
  then have "k < 10000" "create_leads today k [] = Inr (month_db today k)" by simp_all
  then show ?case by (simp add: Lead_save_month_db)
qed

lemma Lead_save_10001:
  "Lead_save today (month_db today 10000) (new_lead 10001) = Inl IntegrityError"
proof -
  have "generate_lead_number today (month_db today 10000)
      = Inr (lead_prefix today @ ''-'' @ format_04d (Suc 9999))"
    by (simp add: generate_lead_number_def last_lead_month_db_10000 py_int_number)
  then have g: "generate_lead_number today (month_db today 10000)
      = Inr (lead_number (numbered today 10000))"
    by (simp add: lead_number_numbered)
  let ?l = "(new_lead 10001)\<lparr>lead_number := lead_number (numbered today 10000)\<rparr>"
  have c: "calculate_weighted_value ?l = Inr ?l"
    by (simp add: calculate_weighted_value_def new_lead_def decimal_truthy_def)
  have a: "check_approval_required ?l = ?l"
    by (simp add: check_approval_required_def new_lead_def)
  have "numbered today 10000 \<in> set (month_db today 10000)" by (auto simp: month_db_def)
  then have "list_ex (\<lambda>r. lead_pk r \<noteq> lead_pk ?l \<and> lead_number r = lead_number ?l)
      (month_db today 10000)"
    unfolding list_ex_iff by (intro bexI [of _ "numbered today 10000"]) (simp_all add: lead_pk_numbered new_lead_def)
  then have m: "Model_save (month_db today 10000) ?l = Inl IntegrityError"
    by (simp add: Model_save_def)
  have e: "lead_number (new_lead 10001) = []" by (simp add: new_lead_def)
  show ?thesis
    unfolding Lead_save_def
    by (simp add: e g c a m)
qed

lemma create_leads_10001: "create_leads today 10001 [] = Inl IntegrityError"
proof -
  have s: "Suc 10000 = (10001::nat)" by simp
  have "create_leads today (Suc 10000) [] = Inl IntegrityError"
    unfolding create_leads.simps
    by (simp add: create_leads_month_db Lead_save_10001)
  then show ?thesis unfolding s .
qed



section \<open>Properties of a run of creations\<close>

text \<open>
  The invariant of a month: its leads carry the numbers with the counters \<open>1, \<dots>, n\<close> in
  the order of their creation. Under it the last lead found is the one with the counter \<open>n\<close>
  (the one with 9999 when \<open>n\<close> is 10000), and a creation that succeeds stores the lead under
  the counter \<open>n + 1\<close>, a number that no other lead has.
\<close>

lemma number_of_numbered: "number_of today i = lead_number (numbered today i)"
  by (simp add: number_of_def lead_number_numbered)

lemma number_of_less: "i < j \<Longrightarrow> j < 10000 \<Longrightarrow> number_of today i < number_of today j"
  by (simp add: number_of_numbered numbered_less)

lemma number_of_inj:
  "number_of today i = number_of today j \<Longrightarrow> i \<le> 10000 \<Longrightarrow> j \<le> 10000 \<Longrightarrow> i = j"
  using numbered_inj [of today i j] by (simp add: number_of_numbered)

lemma number_of_prefix: "prefix (lead_prefix today) (number_of today i)"
  by (simp add: number_of_def)

lemma py_int_number_of:
  "i < 10000 \<Longrightarrow> py_int (last_piece (CHR ''-'') (number_of today i)) = Inr i"
  by (simp add: number_of_numbered py_int_number)

lemma last_lead_numbers:
  assumes inv: "month_numbers today db = map (number_of today) [1..<Suc n]"
    and n: "1 \<le> n" "n \<le> 10000"
  shows "\<exists>r. last_lead (lead_prefix today) db = Some r \<and>
    lead_number r = number_of today (min n 9999)"
proof -
  let ?F = "filter (\<lambda>r. prefix (lead_prefix today) (lead_number r)) db"
  have nums: "map lead_number ?F = map (number_of today) [1..<Suc n]"
    using inv by (simp add: month_numbers_def)
  then have "length (map lead_number ?F) = length (map (number_of today) [1..<Suc n])" by simp
  then have "length ?F = n" by (simp del: upt_Suc)
  with n have "?F \<noteq> []" by auto
  then obtain m where m: "order_by_desc_first ?F = Some m"
    using order_by_desc_first_None [of ?F] by (cases "order_by_desc_first ?F") auto
  from order_by_desc_first_max [OF m]
  have mem: "m \<in> set ?F" and mx: "\<forall>y\<in>set ?F. lead_number y \<le> lead_number m" by simp_all
  have setnums: "lead_number ` set ?F = number_of today ` {1..n}"
  proof -
    have "lead_number ` set ?F = set (map lead_number ?F)" by simp
    also have "\<dots> = set (map (number_of today) [1..<Suc n])" using nums by simp
    also have "\<dots> = number_of today ` {1..n}"
      by (simp del: upt_Suc add: atLeastLessThanSuc_atLeastAtMost)
    finally show ?thesis .
  qed
  from mem have "lead_number m \<in> number_of today ` {1..n}" using setnums by blast
  then obtain i where i: "lead_number m = number_of today i" "1 \<le> i" "i \<le> n" by auto
  let ?k = "min n 9999"
  have k: "1 \<le> ?k" "?k \<le> n" "?k < 10000" using n by auto
  then have "number_of today ?k \<in> lead_number ` set ?F" using setnums by auto
  then obtain y where "y \<in> set ?F" "lead_number y = number_of today ?k" by auto
  with mx have le: "number_of today ?k \<le> number_of today i" using i(1) by auto
  have "i = ?k"
  proof (rule ccontr)
    assume ne: "i \<noteq> ?k"
    show False
    proof (cases "i = 10000")
      case True
      with ne n i have "?k = 9999" by auto
      with True le numbered_10000_less [of today] show False
        by (simp add: number_of_numbered)
    next
      case False
      with i n have i9: "i < 10000" by simp
      show False
      proof (cases "i < ?k")
        case True
        with k have "number_of today i < number_of today ?k" by (intro number_of_less)
        with le show False by simp
      next
        case False
        with ne have "?k < i" by linarith
        with i9 i(3) show False by auto
      qed
    qed
  qed
  with m i show ?thesis by (simp add: last_lead_def)
qed

lemma generate_lead_number_numbers:
  assumes inv: "month_numbers today db = map (number_of today) [1..<Suc n]"
    and n: "n \<le> 10000"
  shows "generate_lead_number today db = Inr (number_of today (Suc (min n 9999)))"
proof (cases "n = 0")
  case True
  with inv have "filter (\<lambda>r. prefix (lead_prefix today) (lead_number r)) db = []"
    by (simp add: month_numbers_def)
  with True show ?thesis
    by (simp add: generate_lead_number_def last_lead_def number_of_def)
next
  case False
  with n have "1 \<le> n" by simp
  from last_lead_numbers [OF inv this n] obtain r where
    r: "last_lead (lead_prefix today) db = Some r" "lead_number r = number_of today (min n 9999)"
    by blast
  have "min n 9999 < 10000" by simp
  then have "py_int (last_piece (CHR ''-'') (number_of today (min n 9999))) = Inr (min n 9999)"
    by (rule py_int_number_of)
  with r show ?thesis
    by (simp add: generate_lead_number_def number_of_def)
qed


lemma lead_number_check_approval:
  "lead_number (check_approval_required l) = lead_number l"
  "lead_pk (check_approval_required l) = lead_pk l"
  by (auto simp: check_approval_required_def split: option.splits)


















text \<open>
  The \<open>save\<close> of a new lead returns whenever its month has fewer than 10000 leads and the
  lead has no value and probability to multiply: the log of a run is not empty for lack of
  saves that return.
\<close>

lemma Lead_save_returns:
  assumes inv: "run_invariant db log"
    and v: "valid_date today"
    and new: "lead_number l = []"
    and fresh: "lead_pk l \<notin> lead_pk ` set db"
    and room: "created_in_month today log < 10000"
    and plain: "\<not> (decimal_truthy (estimated_value l) \<and> probability l \<noteq> 0)"
  shows "\<exists>db1 l1. Lead_save today db l = Inr (db1, l1)"
proof -
  let ?n = "created_in_month today log"
  let ?num = "number_of today (Suc ?n)"
  from inv v have mn: "month_numbers today db = map (number_of today) [1..<Suc ?n]"
    unfolding run_invariant_def by blast
  from room have n: "?n \<le> 10000" and mn9: "min ?n 9999 = ?n" by simp_all
  from generate_lead_number_numbers [OF mn n]
  have g: "generate_lead_number today db = Inr ?num" by (simp add: mn9)
  let ?s = "check_approval_required (l\<lparr>lead_number := ?num\<rparr>)"
  have ln: "lead_number ?s = ?num" and pk: "lead_pk ?s = lead_pk l"
    by (simp_all add: lead_number_check_approval)
  have c: "calculate_weighted_value (l\<lparr>lead_number := ?num\<rparr>) = Inr (l\<lparr>lead_number := ?num\<rparr>)"
    using plain by (simp add: calculate_weighted_value_def)
  have notin: "?num \<notin> lead_number ` set db"
  proof
    assume "?num \<in> lead_number ` set db"
    then obtain x where x: "x \<in> set db" "lead_number x = ?num" by auto
    then have "prefix (lead_prefix today) (lead_number x)" by (simp add: number_of_prefix)
    with x have "?num \<in> set (month_numbers today db)"
      unfolding month_numbers_def by force
    then have "?num \<in> number_of today ` {1..?n}"
      unfolding mn by (simp del: upt_Suc add: atLeastLessThanSuc_atLeastAtMost)
    then obtain i where i: "?num = number_of today i" "1 \<le> i" "i \<le> ?n" by auto
    from number_of_inj [OF i(1)] room i(3) have "Suc ?n = i" by simp
    with i(3) show False by simp
  qed
  then have "\<not> list_ex (\<lambda>r. lead_pk r \<noteq> lead_pk ?s \<and> lead_number r = lead_number ?s) db"
    unfolding ln list_ex_iff by (metis imageI)
  moreover have "\<not> list_ex (\<lambda>r. lead_pk r = lead_pk ?s) db"
    unfolding pk list_ex_iff using fresh by (metis imageI)
  ultimately have m: "Model_save db ?s = Inr (db @ [?s])"
    by (simp add: Model_save_def)
  have "Lead_save today db l = Inr (db @ [?s], ?s)"
    unfolding Lead_save_def by (simp add: new g c m Let_def)
  then show ?thesis by blast
qed







text \<open>The number with the counter \<open>i\<close> ends in the four digits of \<open>i\<close>, which \<open>int\<close> reads back.\<close>

lemma number_of_value:
  "i < 10000 \<Longrightarrow> number_of today i = lead_prefix today @ ''-'' @ four_digits i \<and>
     py_int (last_piece (CHR ''-'') (number_of today i)) = Inr i"
  by (simp add: py_int_number_of) (simp add: number_of_def format_04d_four)

section \<open>Properties of \<open>Lead.save\<close>\<close>

text \<open>
  Whenever the value and the probability are both present and not zero, \<open>save\<close> raises
  before anything is written, and a \<open>save\<close> that returns has left \<open>weighted_value\<close> as it
  was.
\<close>

lemma Lead_save_raises_TypeError:
  "lead_number self \<noteq> [] \<Longrightarrow> decimal_truthy (estimated_value self) \<Longrightarrow> probability self \<noteq> 0
   \<Longrightarrow> Lead_save today db self = Inl TypeError"
  by (simp add: Lead_save_def calculate_weighted_value_def)

lemma Lead_save_never_sets_weighted_value:
  "Lead_save today db self = Inr (db', self') \<Longrightarrow> weighted_value self' = weighted_value self"
  by (auto simp: Lead_save_def calculate_weighted_value_def check_approval_required_def Let_def
      split: if_splits sum.splits option.splits)

text \<open>
  C1. The claim is that a saved lead with both an estimated value and a probability has
  \<open>weighted_value = estimated_value * probability / 100\<close>. For a new lead with the value
  1000.00 and the probability 50 the code stores nothing: \<open>Decimal('1000.00') * (50 / 100)\<close>
  is the product of a \<open>Decimal\<close> and a \<open>float\<close>, and \<open>save\<close> raises \<open>TypeError\<close>. With the
  probability 0 the same lead is saved, and its weighted value stays \<open>None\<close>: the product is
  never computed.
\<close>

theorem Lead_save_weighted_value_TypeError:
  "Lead_save january_2024 [] valued_lead = Inl TypeError \<and>
   estimated_value (valued_lead\<lparr>probability := 0\<rparr>) = Some 100000 \<and>
   map_sum id (\<lambda>(db, l). (lead_number l, weighted_value l, map weighted_value db))
     (Lead_save january_2024 [] (valued_lead\<lparr>probability := 0\<rparr>))
     = Inr (''LEAD-202401-0001'', None, [None])"
  by (simp add: Lead_save_def valued_lead_def new_lead_def generate_lead_number_def last_lead_def
      calculate_weighted_value_def decimal_truthy_def check_approval_required_def Model_save_def
      lead_prefix_def strftime_jan format_04d_def str_nat.simps digit_char_def replicate_small
      Let_def)

text \<open>
  The limit of the numbering. The first 10000 creations of January 2024 get
  \<open>LEAD-202401-0001\<close> to \<open>LEAD-202401-10000\<close>. From then on the greatest number in the order of
  strings is \<open>LEAD-202401-9999\<close>, the number generated is \<open>LEAD-202401-10000\<close> again, and every
  further creation of the month ends in an \<open>IntegrityError\<close> of the unique column: no lead is
  stored, and the numbers in the table stay unique and increasing.
\<close>

lemma lead_number_repeats_after_10000:
  "create_leads january_2024 10000 [] = Inr (month_db january_2024 10000) \<and>
   lead_number (numbered january_2024 10000) = ''LEAD-202401-10000'' \<and>
   generate_lead_number january_2024 (month_db january_2024 10000) = Inr ''LEAD-202401-10000'' \<and>
   create_leads january_2024 10001 [] = Inl IntegrityError"
proof -
  have n: "lead_number (numbered january_2024 10000) = ''LEAD-202401-10000''"
    by (simp add: lead_number_numbered lead_prefix_def strftime_jan format_04d_10000)
  have "generate_lead_number january_2024 (month_db january_2024 10000)
      = Inr (lead_prefix january_2024 @ ''-'' @ format_04d (Suc 9999))"
    by (simp add: generate_lead_number_def last_lead_month_db_10000 py_int_number)
  then have g: "generate_lead_number january_2024 (month_db january_2024 10000) = Inr ''LEAD-202401-10000''"
    by (simp add: lead_prefix_def strftime_jan format_04d_10000)
  show ?thesis
    using n g by (simp add: create_leads_month_db create_leads_10001)
qed

section \<open>Properties of the approval fields\<close>

lemma Model_save_find:
  "Model_save db self = Inr db' \<Longrightarrow> find (\<lambda>r. lead_pk r = lead_pk self) db' = Some self"
proof -
  have a: "find (\<lambda>r. lead_pk r = k) (map (\<lambda>r. if lead_pk r = k then s else r) xs) = Some s"
    if "list_ex (\<lambda>r. lead_pk r = k) xs" "lead_pk s = k" for xs k s
    using that by (induction xs) auto
  have b: "find (\<lambda>r. lead_pk r = k) (xs @ [s]) = Some s"
    if "\<not> list_ex (\<lambda>r. lead_pk r = k) xs" "lead_pk s = k" for xs k s
    using that by (induction xs) auto
  assume "Model_save db self = Inr db'"
  then show ?thesis
    by (auto simp: Model_save_def a b split: if_splits)
qed

lemma Lead_save_Inr:
  assumes "Lead_save today db self = Inr (db', self')"
  shows "\<exists>n. self' = check_approval_required (self\<lparr>lead_number := n\<rparr>) \<and>
    Model_save db self' = Inr db'"
proof (cases "lead_number self = []")
  case True
  with assms obtain n where "generate_lead_number today db = Inr n"
    by (cases "generate_lead_number today db") (simp_all add: Lead_save_def)
  with assms True show ?thesis
    by (intro exI [of _ n])
      (auto simp: Lead_save_def calculate_weighted_value_def Let_def split: if_splits sum.splits)
next
  case False
  with assms show ?thesis
    by (intro exI [of _ "lead_number self"])
      (auto simp: Lead_save_def calculate_weighted_value_def Let_def split: if_splits sum.splits)
qed

text \<open>
  What \<open>Lead.save\<close> itself does to the approval: a \<open>save\<close> that returns has set
  \<open>requires_approval\<close> when the status of the lead requires approval and has kept it
  otherwise, has left \<open>approved_by\<close>, \<open>approved_at\<close> and \<open>approval_notes\<close> as the caller
  passed them, and has stored the lead in that state.
\<close>

lemma Lead_save_approval:
  assumes "Lead_save today db self = Inr (db', self')"
  shows "requires_approval self' = (requires_approval self \<or> status_needs_approval (lead_status self)) \<and>
    approved_by self' = approved_by self \<and> approved_at self' = approved_at self \<and>
    approval_notes self' = approval_notes self \<and>
    find (\<lambda>r. lead_pk r = lead_pk self) db' = Some self'"
proof -
  from Lead_save_Inr [OF assms] obtain n where
    sv: "self' = check_approval_required (self\<lparr>lead_number := n\<rparr>)" "Model_save db self' = Inr db'"
    by blast
  have c: "lead_pk self' = lead_pk self" "approved_by self' = approved_by self"
    "approved_at self' = approved_at self" "approval_notes self' = approval_notes self"
    "requires_approval self' = (requires_approval self \<or> status_needs_approval (lead_status self))"
    using sv(1)
    by (auto simp: check_approval_required_def status_needs_approval_def split: option.splits)
  from Model_save_find [OF sv(2)] c show ?thesis by simp
qed

lemma Lead_save_approval_example:
  "Lead_save january_2024 [approved_lead] (approved_lead\<lparr>lead_status := Some quotation_status\<rparr>)
     = Inr ([approved_lead\<lparr>lead_status := Some quotation_status\<rparr>],
            approved_lead\<lparr>lead_status := Some quotation_status\<rparr>) \<and>
   approved_by (approved_lead\<lparr>lead_status := Some quotation_status\<rparr>) = Some 1 \<and>
   requires_approval (approved_lead\<lparr>lead_status := Some quotation_status\<rparr>)"
  by (simp add: approved_lead_def new_lead_def Lead_save_def quotation_status_def
      calculate_weighted_value_def decimal_truthy_def check_approval_required_def Model_save_def Let_def)

text \<open>
  The admin action leaves a lead that has an approver alone, whatever is selected.
\<close>

lemma approve_leads_skips_approved:
  "list_all (\<lambda>r. approved_by r \<noteq> None) db \<Longrightarrow>
   approve_leads today clock user queryset db = Inr (db, 0)"
proof -
  assume "list_all (\<lambda>r. approved_by r \<noteq> None) db"
  then have "filter (\<lambda>r. requires_approval r \<and> approved_by r = None)
      (filter (\<lambda>r. lead_pk r \<in> set queryset) db) = []"
    by (auto simp: list_all_iff filter_empty_conv)
  then show ?thesis by (simp add: approve_leads_def)
qed

text \<open>
  C4. The claim is that the approver, the time and the notes of an approved lead are never
  changed by a later save. Lead 1 was approved by user 1 at time 10 with the notes \<open>ok\<close>. A
  \<open>POST\<close> to \<open>lead_approve_view\<close> for this lead, by user 2 at time 20 with the notes \<open>again\<close>,
  assigns all three fields anew and saves the lead: the view does not look at \<open>approved_by\<close>.
  The admin action \<open>approve_leads\<close>, run by the same user on the same lead, leaves the lead
  as it is.
\<close>

theorem approval_overwritten_by_second_approval:
  "approved_by approved_lead = Some 1 \<and> approved_at approved_lead = Some 10 \<and>
   approval_notes approved_lead = ''ok'' \<and>
   lead_approve_view january_2024 20 True 2 POST ''again'' [approved_lead] 1
     = Inr ([approved_lead\<lparr>approved_by := Some 2, approved_at := Some 20,
               approval_notes := ''again''\<rparr>], Redirect) \<and>
   approve_leads january_2024 (\<lambda>n. 20) 2 [1] [approved_lead] = Inr ([approved_lead], 0)"
  by (simp add: lead_approve_view_def approve_leads_def approved_lead_def new_lead_def Lead_save_def
      calculate_weighted_value_def decimal_truthy_def check_approval_required_def Model_save_def Let_def)

text \<open>
  The receiver \<open>lead_pre_save\<close>, where it is connected, clears the approver and the time stamp
  when the status changes to one that requires approval; on a lead that is not in the table
  yet it raises.
\<close>

lemma lead_pre_save_resets_approval:
  "lead_pre_save [approved_lead] (approved_lead\<lparr>lead_status := Some quotation_status\<rparr>)
     = Inr (approved_lead\<lparr>lead_status := Some quotation_status, approved_by := None,
              approved_at := None\<rparr>)"
  by (simp add: lead_pre_save_def approved_lead_def new_lead_def quotation_status_def
      status_needs_approval_def)

lemma lead_pre_save_new_lead: "lead_pre_save [] (new_lead 1) = Inl DoesNotExist"
  by (simp add: lead_pre_save_def)


section \<open>Properties of the employment history\<close>

text \<open>
  C3. The claim is that after any create or update of a history row at most one row of the
  contact is current. Contact 1 has a current row for company 10; saving a second row with
  \<open>is_current = True\<close> for company 20 leaves both rows current: no receiver runs, and the
  write does not touch the other rows.
\<close>

theorem second_current_row_stays:
  "map company (current_rows (fst (ContactCompanyHistory_save employed_db second_job)) 1) = [10, 20]"
  by (simp add: ContactCompanyHistory_save_def employed_db_def second_job_def current_rows_def
      next_pk_def Let_def)

text \<open>
  C10. The claim is that after a row with \<open>is_current = True\<close> is saved, the contact has the
  company and the designation of that row. After the same save the contact still has
  company 10 and designation 5, while the row has company 20 and designation 6.
\<close>

theorem contact_not_updated_by_history_save:
  "is_current second_job \<and> company second_job = 20 \<and> history_contact second_job = 1 \<and>
   contacts (fst (ContactCompanyHistory_save employed_db second_job))
     = [\<lparr>contact_pk = 1, current_company = Some 10, designation = Some 5\<rparr>]"
  by (simp add: ContactCompanyHistory_save_def employed_db_def second_job_def Let_def)

text \<open>
  What the receiver does when it is called after the write: the only current rows of the
  contact are those with the key of the saved row, and the contact has the company and the
  designation of the row. This is the behaviour that the docstring and the comments of
  \<open>contact_company_history_post_save\<close> describe.
\<close>

lemma post_save_single_current:
  assumes "is_current instance" "r \<in> set (current_rows (contact_company_history_post_save db instance)
     (history_contact instance))"
  shows "history_pk r = history_pk instance"
  using assms by (auto simp: contact_company_history_post_save_def current_rows_def split: if_splits)

lemma post_save_sets_contact:
  assumes "is_current instance"
    "c \<in> set (contacts (contact_company_history_post_save db instance))"
    "contact_pk c = history_contact instance"
  shows "current_company c = Some (company instance) \<and> designation c = history_designation instance"
  using assms by (auto simp: contact_company_history_post_save_def split: if_splits)

lemma post_save_example:
  "current_rows (contact_company_history_post_save
      (fst (ContactCompanyHistory_save employed_db second_job))
      (snd (ContactCompanyHistory_save employed_db second_job))) 1
    = [second_job\<lparr>history_pk := Some 2\<rparr>]"
  by (simp add: ContactCompanyHistory_save_def employed_db_def second_job_def current_rows_def
      next_pk_def Let_def contact_company_history_post_save_def)

text \<open>
  The company change in the update view on the same database: the old row is closed and
  the new one is the only current row.
\<close>

lemma form_valid_example:
  "ContactUpdateView_form_valid 300 employed_db 1
     \<lparr>form_current_company = Some 20, form_designation = Some 6, company_in_changed_data = True\<rparr>
   = Inr \<lparr>contacts = [\<lparr>contact_pk = 1, current_company = Some 20, designation = Some 6\<rparr>],
       histories = [\<lparr>history_pk = Some 1, history_contact = 1, company = 10,
         history_designation = Some 5, start_date = Some 100, end_date = Some 300,
         is_current = False\<rparr>,
        \<lparr>history_pk = Some 2, history_contact = 1, company = 20,
         history_designation = Some 6, start_date = Some 300, end_date = None,
         is_current = True\<rparr>]\<rparr>"
  by (simp add: ContactUpdateView_form_valid_def ContactCompanyHistory_save_def employed_db_def
      next_pk_def Let_def)

text \<open>
  The view closes the rows of the old company only. When the company of the contact does not
  match its current row, the company change in the view leaves two current rows as well.
\<close>

lemma form_valid_leaves_two_current_rows:
  "map_sum id (\<lambda>db. map company (current_rows db 1))
     (ContactUpdateView_form_valid 300 edited_db 1
        \<lparr>form_current_company = Some 20, form_designation = Some 6,
         company_in_changed_data = True\<rparr>)
   = Inr [10, 20]"
  by (simp add: ContactUpdateView_form_valid_def ContactCompanyHistory_save_def edited_db_def
      employed_db_def next_pk_def current_rows_def Let_def)

section \<open>Properties of the upload validation\<close>

lemmas letters_defs = uppercase_letters_def lowercase_letters_def

lemma ascii_lower_range: "ascii_lower c = c \<or> ascii_lower c \<in> set lowercase_letters"
proof (cases "map_of (zip uppercase_letters lowercase_letters) c")
  case None
  then show ?thesis by (simp add: ascii_lower_def)
next
  case (Some l)
  then have "(c, l) \<in> set (zip uppercase_letters lowercase_letters)" by (rule map_of_SomeD)
  then have "l \<in> set lowercase_letters" by (rule set_zip_rightD)
  with Some show ?thesis by (simp add: ascii_lower_def)
qed

lemma ascii_upper_range: "ascii_upper c = c \<or> ascii_upper c \<in> set uppercase_letters"
proof (cases "map_of (zip lowercase_letters uppercase_letters) c")
  case None
  then show ?thesis by (simp add: ascii_upper_def)
next
  case (Some l)
  then have "(c, l) \<in> set (zip lowercase_letters uppercase_letters)" by (rule map_of_SomeD)
  then have "l \<in> set uppercase_letters" by (rule set_zip_rightD)
  with Some show ?thesis by (simp add: ascii_upper_def)
qed

lemma ascii_lower_dot: "ascii_lower c = CHR ''.'' \<longleftrightarrow> c = CHR ''.''"
proof
  assume a: "ascii_lower c = CHR ''.''"
  have "CHR ''.'' \<notin> set lowercase_letters" by (simp add: letters_defs)
  with a ascii_lower_range [of c] show "c = CHR ''.''" by auto
next
  assume "c = CHR ''.''"
  then show "ascii_lower c = CHR ''.''" by (simp add: ascii_lower_def letters_defs)
qed

lemma lower_dot: "CHR ''.'' \<in> set (lower s) \<longleftrightarrow> CHR ''.'' \<in> set s"
proof
  assume "CHR ''.'' \<in> set (lower s)"
  then have "CHR ''.'' \<in> ascii_lower ` set s" by (simp add: lower_def)
  then obtain x where x: "x \<in> set s" "CHR ''.'' = ascii_lower x" by (rule imageE)
  from x(2) have "x = CHR ''.''" by (metis ascii_lower_dot)
  with x(1) show "CHR ''.'' \<in> set s" by simp
next
  assume "CHR ''.'' \<in> set s"
  then have "ascii_lower (CHR ''.'') \<in> ascii_lower ` set s" by (rule imageI)
  moreover have "ascii_lower (CHR ''.'') = CHR ''.''" by (simp add: ascii_lower_dot)
  ultimately show "CHR ''.'' \<in> set (lower s)" by (simp add: lower_def)
qed

text \<open>
  For a name with a dot the claim holds: the file is rejected exactly when it is too large or
  its extension is not in the list; and every file within the size limit whose extension is
  in the list passes.
\<close>

lemma clean_file_dotted:
  assumes "CHR ''.'' \<in> set (file_name f)"
  shows "(\<exists>e. clean_file (Some f) = Inl e) \<longleftrightarrow>
    file_size f > 10 * 1024 * 1024 \<or> extension (lower (file_name f)) \<notin> Some ` set allowed_extensions"
proof -
  have "file_name f \<noteq> []" using assms by auto
  moreover have "CHR ''.'' \<in> set (lower (file_name f))"
    using assms by (simp add: lower_dot)
  ultimately show ?thesis
    by (auto simp: clean_file_def extension_def Let_def)
qed

lemma clean_file_passes:
  assumes "file_size f \<le> 10 * 1024 * 1024"
    "extension (lower (file_name f)) \<in> Some ` set allowed_extensions"
  shows "clean_file (Some f) = Inr (Some f)"
  using assms by (auto simp: clean_file_def extension_def Let_def split: if_splits)

lemma clean_file_too_large:
  "file_name f \<noteq> [] \<Longrightarrow> file_size f > 10 * 1024 * 1024 \<Longrightarrow>
   clean_file (Some f) = Inl (ValidationError ''File size cannot exceed 10MB'')"
  by (simp add: clean_file_def)

text \<open>
  C9. The claim is that a file is rejected when its extension is outside the list. A file
  named \<open>pdf\<close> has no extension, and \<open>validate_file_extension\<close> of \<open>validators.py\<close> rejects it,
  but \<open>clean_file\<close> takes the whole name for the extension (\<open>'pdf'.split('.')[-1]\<close>) and
  accepts the file.
\<close>

theorem clean_file_accepts_name_without_extension:
  "extension (lower (file_name file_named_pdf)) = None \<and>
   file_size file_named_pdf \<le> 10 * 1024 * 1024 \<and>
   clean_file (Some file_named_pdf) = Inr (Some file_named_pdf) \<and>
   validate_file_extension file_named_pdf = Inl (ValidationError
     ''File type not allowed. Allowed types: .pdf, .doc, .docx, .xls, .xlsx, .png, .jpg, .jpeg, .txt'')"
  by (simp add: clean_file_def file_named_pdf_def extension_def lower_def ascii_lower_def
      letters_defs last_piece_def allowed_extensions_def validate_file_extension_def
      suffix_to_prefix)

section \<open>Properties of the contact form\<close>

lemma clean_phone_nonempty: "phone \<noteq> [] \<Longrightarrow> clean_phone phone \<noteq> []"
  by (auto simp: clean_phone_def Let_def)

lemma cleaned_phone_nonempty: "cleaned_phone post = Inr p \<Longrightarrow> p \<noteq> []"
  by (auto simp: cleaned_phone_def phone_field_clean_def Let_def clean_phone_nonempty
      split: if_splits sum.splits)

lemma blank_phone_required:
  "strip (post_phone post) = [] \<Longrightarrow>
   cleaned_phone post = Inl (ValidationError ''This field is required.'')"
  by (simp add: cleaned_phone_def phone_field_clean_def)

lemma blank_email_cleaned:
  "strip (post_email post) = [] \<Longrightarrow> cleaned_email v post = Inr []"
  by (simp add: cleaned_email_def email_field_clean_def clean_email_def)

text \<open>
  C8, as amended. A submission with a blank phone field is rejected, whatever the e-mail
  field holds; when both fields are blank, \<open>ContactForm.clean\<close> adds its own error; and
  every submission that is accepted has a phone number.
\<close>

theorem ContactForm_requires_phone:
  "(strip (post_phone post) = [] \<longrightarrow> \<not> ContactForm_is_valid validate_email post) \<and>
   (strip (post_phone post) = [] \<and> strip (post_email post) = [] \<longrightarrow>
      (''__all__'', ValidationError ''Please provide at least phone number or email address.'')
        \<in> set (ContactForm_errors validate_email post)) \<and>
   (ContactForm_is_valid validate_email post \<longrightarrow>
      (\<exists>p. cleaned_phone post = Inr p \<and> p \<noteq> []))"
proof (intro conjI impI)
  assume "strip (post_phone post) = []"
  then show "\<not> ContactForm_is_valid validate_email post"
    by (simp add: ContactForm_is_valid_def ContactForm_errors_def blank_phone_required
        field_errors_def)
next
  assume "strip (post_phone post) = [] \<and> strip (post_email post) = []"
  then show "(''__all__'', ValidationError ''Please provide at least phone number or email address.'')
      \<in> set (ContactForm_errors validate_email post)"
    by (simp add: ContactForm_errors_def blank_phone_required blank_email_cleaned
        field_errors_def get_cleaned_def ContactForm_clean_def str_truthy_def)
next
  assume v: "ContactForm_is_valid validate_email post"
  then obtain p where p: "cleaned_phone post = Inr p"
    by (cases "cleaned_phone post")
      (simp_all add: ContactForm_is_valid_def ContactForm_errors_def field_errors_def)
  with cleaned_phone_nonempty show "\<exists>p. cleaned_phone post = Inr p \<and> p \<noteq> []" by blast
qed

lemma ContactForm_clean_raises_iff:
  "(\<exists>e. ContactForm_clean phone email = Inl e) \<longleftrightarrow> \<not> str_truthy phone \<and> \<not> str_truthy email"
  by (simp add: ContactForm_clean_def)

text \<open>A submission without a phone number is rejected whatever the e-mail check answers.\<close>

lemma email_only_rejected: "\<not> ContactForm_is_valid validate_email email_only_post"
  by (simp add: ContactForm_is_valid_def ContactForm_errors_def field_errors_def
      cleaned_phone_def phone_field_clean_def email_only_post_def strip_def)

text \<open>
  C8 as stated fails: a submission with an e-mail address and no phone number is rejected,
  though not both fields are empty. The phone field is required.
\<close>

theorem email_without_phone_rejected:
  "strip (post_email email_only_post) \<noteq> [] \<and>
   cleaned_email has_at_sign email_only_post = Inr ''a@b.co'' \<and>
   \<not> ContactForm_is_valid has_at_sign email_only_post"
  by (simp add: ContactForm_is_valid_def ContactForm_errors_def field_errors_def
      cleaned_phone_def phone_field_clean_def email_only_post_def strip_def is_space_def
      cleaned_email_def email_field_clean_def has_at_sign_def clean_email_def lower_def
      ascii_lower_def uppercase_letters_def lowercase_letters_def)

lemma phone_only_accepted:
  "ContactForm_errors has_at_sign phone_only_post = [] \<and>
   cleaned_phone phone_only_post = Inr ''+8801712345678''"
  by (simp add: ContactForm_errors_def field_errors_def
      cleaned_phone_def phone_field_clean_def phone_only_post_def strip_def is_space_def
      cleaned_email_def email_field_clean_def clean_email_def clean_phone_def
      get_cleaned_def ContactForm_clean_def str_truthy_def)

theorem ContactForm_requires_phone_witness:
  "ContactForm_is_valid has_at_sign phone_only_post \<and>
   (\<exists>p. cleaned_phone phone_only_post = Inr p \<and> p \<noteq> []) \<and>
   strip (post_phone email_only_post) = [] \<and>
   \<not> ContactForm_is_valid has_at_sign email_only_post"
proof -
  have a: "ContactForm_is_valid has_at_sign phone_only_post"
    using phone_only_accepted by (simp add: ContactForm_is_valid_def)
  have b: "strip (post_phone email_only_post) = []"
    by (simp add: email_only_post_def strip_def)
  from a b ContactForm_requires_phone [of phone_only_post has_at_sign]
    ContactForm_requires_phone [of email_only_post has_at_sign]
  show ?thesis by blast
qed

section \<open>Properties of the product sync\<close>

text \<open>
  The loop over a list in two parts: when the first part leaves the loop by an exception, so
  does the whole; otherwise the second part starts from the catalog and the counters of the
  first.
\<close>

lemma sync_items_append:
  "sync_items lib db (xs @ ys) c u =
     (case sync_items lib db xs c u of
        (db1, Inl e) \<Rightarrow> (db1, Inl e)
      | (db1, Inr (c1, u1)) \<Rightarrow> sync_items lib db1 ys c1 u1)"
proof (induction xs arbitrary: db c u)
  case Nil
  show ?case by simp
next
  case (Cons x xs)
  obtain db1 out where p: "process_item lib db x = (db1, out)" by (cases "process_item lib db x")
  show ?case
  proof (cases out)
    case (Failed e)
    with p Cons.IH show ?thesis by (cases "log_item_error x") simp_all
  qed (use p Cons.IH in simp_all)
qed

text \<open>
  A record whose processing raises is skipped: the loop goes on with the items after it, from
  the catalog as the record left it and with the counters reached before it.
\<close>

lemma sync_items_skips_failing_record:
  assumes "sync_items lib db xs c u = (db1, Inr (c1, u1))"
    and "process_item lib db1 (JObj x) = (db2, Failed e)"
  shows "sync_items lib db (xs @ JObj x # ys) c u = sync_items lib db2 ys c1 u1"
  using assms by (simp add: sync_items_append log_item_error_def)

text \<open>
  An item that is no dict ends the loop: the \<open>try\<close> raises, the handler raises, and no item
  after it is processed.
\<close>

lemma process_item_no_dict:
  "\<forall>item. fetched \<noteq> JObj item \<Longrightarrow> process_item lib db fetched = (db, Failed AttributeError)"
  by (cases fetched) (simp_all add: process_item_def)

lemma log_item_error_no_dict:
  "\<forall>item. fetched \<noteq> JObj item \<Longrightarrow> log_item_error fetched = Inl AttributeError"
  by (cases fetched) (simp_all add: log_item_error_def)

lemma sync_items_leaves_loop:
  assumes "sync_items lib db xs c u = (db1, Inr (c1, u1))"
    and "\<forall>item. fetched \<noteq> JObj item"
  shows "sync_items lib db (xs @ fetched # ys) c u = (db1, Inl AttributeError)"
  using assms
  by (simp add: sync_items_append process_item_no_dict log_item_error_no_dict)

lemmas sync_defs = process_item_def int_lib_def empty_catalog_def servo_catalog_def
  servo_item_def broken_item_def plc_item_def get_def
  get_default_def py_or_def safe_decimal_def extract_sales_price_def
  get_or_create_category_def category_for_def upper_def ascii_upper_def
  uppercase_letters_def lowercase_letters_def update_or_create_def brand_for_def
  is_mitsubishi_def apply_defaults_def Let_def

lemma process_servo_item:
  "process_item int_lib empty_catalog (JObj servo_item) = (servo_catalog, Created)"
  by (simp add: sync_defs)

lemma process_broken_item:
  "process_item int_lib servo_catalog (JObj broken_item) = (servo_catalog, Failed AttributeError)"
  by (simp add: sync_defs)

lemma fetch_null_item_server:
  "fetch_all_inventory_items null_item_server = Inr [JObj servo_item, JNull, JObj plc_item]"
  by (simp add: fetch_all_inventory_items_def fetch_loop.simps null_item_server_def
      page_size_def max_iterations_def)

lemma fetch_broken_item_server:
  "fetch_all_inventory_items broken_item_server
     = Inr [JObj servo_item, JObj broken_item, JObj plc_item]"
  by (simp add: fetch_all_inventory_items_def fetch_loop.simps broken_item_server_def
      page_size_def max_iterations_def)

text \<open>
  C7. The claim is that for every list of fetched items an item whose processing raises is
  skipped and every item after it is still processed. The endpoint answers with the list of
  the record \<open>SERVO-7\<close>, a \<open>null\<close> and the record \<open>fx5u-32mr\<close>. The record \<open>SERVO-7\<close> is created;
  at the \<open>null\<close> the \<open>try\<close> raises and then the handler, \<open>sync_products\<close> raises
  \<open>AttributeError\<close>, and the record \<open>fx5u-32mr\<close> is never processed. With a record whose code
  is a number in the place of the \<open>null\<close>, the record is skipped and both others are created.
\<close>

theorem sync_products_leaves_loop_at_null_item:
  "map_prod (\<lambda>db. map sku (products db)) id
     (sync_products int_lib null_item_server empty_catalog)
     = ([Some ''SERVO-7''], Inl AttributeError) \<and>
   map_prod (\<lambda>db. map sku (products db)) id
     (sync_products int_lib broken_item_server empty_catalog)
     = ([Some ''SERVO-7'', Some ''fx5u-32mr''],
        Inr \<lparr>created = 2, updated = 0, total_items = Some 3\<rparr>)"
  by (simp add: sync_products_def fetch_null_item_server fetch_broken_item_server
      get_or_create_brand_def log_item_error_def sync_defs)

section \<open>Properties of the classification and the upsert\<close>

lemma prefix_contains: "prefix p s \<Longrightarrow> contains p s"
  by (cases s) auto

lemma get_or_create_category_code:
  assumes "get_or_create_category code db = Inr (db1, cat)"
  shows "category_code cat = category_code (category_for code) \<and> products db1 = products db"
proof (cases "find (\<lambda>c. category_code c = category_code (category_for code)) (categories db)")
  case None
  with assms show ?thesis
    by (auto simp: get_or_create_category_def Let_def split: if_splits)
next
  case (Some c)
  then have "category_code c = category_code (category_for code)"
    by (auto simp: find_Some_iff)
  with Some assms show ?thesis
    by (auto simp: get_or_create_category_def Let_def)
qed

lemma update_or_create_one:
  assumes "update_or_create code d db = Inr (db2, flag)"
  shows "\<exists>p. filter (\<lambda>q. sku q = Some code) (products db2) = [p] \<and>
    brand p = brand d \<and> product_category p = product_category d \<and> model p = model d"
proof (cases "filter (\<lambda>q. sku q = Some code) (products db)")
  case Nil
  with assms have "products db2 = products db @ [d\<lparr>sku := Some code\<rparr>]"
    by (auto simp: update_or_create_def split: if_splits)
  with Nil show ?thesis by simp
next
  case (Cons p ps)
  with assms have ps: "ps = []"
    by (cases ps) (auto simp: update_or_create_def split: if_splits)
  let ?f = "\<lambda>q. if sku q = Some code then apply_defaults d q else q"
  from assms Cons ps have db2: "products db2 = map ?f (products db)"
    by (auto simp: update_or_create_def split: if_splits)
  have "(\<lambda>q. sku q = Some code) \<circ> ?f = (\<lambda>q. sku q = Some code)"
    by (auto simp: fun_eq_iff apply_defaults_def)
  then have "filter (\<lambda>q. sku q = Some code) (map ?f (products db))
      = map ?f (filter (\<lambda>q. sku q = Some code) (products db))"
    by (simp add: filter_map)
  also have "\<dots> = [?f p]" using Cons ps by simp
  finally have f: "filter (\<lambda>q. sku q = Some code) (products db2) = [?f p]"
    using db2 by simp
  from Cons have "sku p = Some code"
    by (metis (mono_tags, lifting) filter_eq_ConsD)
  then have "?f p = apply_defaults d p" by simp
  with f show ?thesis by (simp add: apply_defaults_def)
qed

lemma process_item_cases:
  assumes id: "json_truthy (py_or (get item ''id'') (get item ''Key''))"
    and code: "py_or (get item ''ItemCode'') (get_default item ''Code'' (JStr [])) = JStr code"
    and ne: "code \<noteq> []"
    and p: "process_item lib db (JObj item) = (db', out)"
  shows "(\<exists>e. out = Failed e) \<or>
    ((out = Created \<or> out = Updated) \<and>
     (\<exists>db1 cat d flag. get_or_create_category code db = Inr (db1, cat) \<and>
        update_or_create code d db1 = Inr (db', flag) \<and> brand d = brand_for code \<and>
        product_category d = category_code cat \<and> model d = code))"
proof -
  let ?q = "safe_decimal lib (py_or (get item ''qtyOnHand'') (get_default item ''qty'' (JInt 0)))"
  show ?thesis
  proof (cases ?q)
    case (Inl e)
    with id code ne p show ?thesis by (auto simp: process_item_def Let_def)
  next
    case q: (Inr quantity)
    show ?thesis
    proof (cases "extract_sales_price lib item")
      case (Inl e)
      with id code ne p q show ?thesis by (auto simp: process_item_def Let_def)
    next
      case s: (Inr sales_price)
      show ?thesis
      proof (cases "get_or_create_category code db")
        case (Inl e)
        with id code ne p q s show ?thesis by (auto simp: process_item_def Let_def)
      next
        case (Inr r)
        then obtain db1 cat where c: "get_or_create_category code db = Inr (db1, cat)"
          by (cases r) auto
        show ?thesis
        proof (cases "int_of lib quantity")
          case (Inl e)
          with id code ne p q s c show ?thesis by (auto simp: process_item_def Let_def)
        next
          case i: (Inr stock)
          let ?d = "\<lparr>sku = None, product_name = py_or (get item ''ItemName'')
                         (get_default item ''Name'' (JStr [])),
                     brand = brand_for code, model = code,
                     product_category = category_code cat,
                     description = get_default item ''Description'' (JStr []),
                     price = sales_price, stock_quantity = stock,
                     is_active = True, is_from_api = True,
                     mitsubishi_api_id = py_or (get item ''id'') (get item ''Key'')\<rparr>"
          show ?thesis
          proof (cases "update_or_create code ?d db1")
            case (Inl e)
            with id code ne p q s c i show ?thesis by (auto simp: process_item_def Let_def)
          next
            case (Inr r2)
            then obtain db2 flag where u: "update_or_create code ?d db1 = Inr (db2, flag)"
              by (cases r2) auto
            with id code ne p q s c i have r: "db' = db2" "out = (if flag then Created else Updated)"
              by (auto simp: process_item_def Let_def)
            then have o: "out = Created \<or> out = Updated" by simp
            have "update_or_create code ?d db1 = Inr (db', flag) \<and> brand ?d = brand_for code \<and>
                product_category ?d = category_code cat \<and> model ?d = code"
              using u r(1) by simp
            with c have "\<exists>db1 cat d flag. get_or_create_category code db = Inr (db1, cat) \<and>
                update_or_create code d db1 = Inr (db', flag) \<and> brand d = brand_for code \<and>
                product_category d = category_code cat \<and> model d = code"
              by blast
            with o show ?thesis by blast
          qed
        qed
      qed
    qed
  qed
qed


lemma brand_for_prefix:
  "list_ex (\<lambda>p. prefix p (upper code)) [''FX'', ''MR'', ''QY'', ''QX'', ''FR-''] \<Longrightarrow>
   brand_for code = ''Mitsubishi Electric''"
  unfolding brand_for_def is_mitsubishi_def list_ex_iff
  by (meson prefix_contains)

text \<open>
  C6, as amended. For a record with a true identifier and a code that is a non-empty string,
  whose processing raises no exception, the catalog holds exactly one product with the code
  as its sku afterwards, created or updated, with the brand and the category of the code.
  The brand is Mitsubishi Electric when the upper-cased code starts with one of \<open>FX\<close>, \<open>MR\<close>,
  \<open>QY\<close>, \<open>QX\<close>, \<open>FR-\<close>, and the import brand when it contains none of them. The category is
  \<open>PLC\<close> when the upper-cased code starts with \<open>FX\<close> or \<open>Q\<close>, else \<open>VFD\<close> when it starts with
  \<open>FR-\<close>, else \<open>SERVO\<close> when it starts with \<open>MR-\<close> or contains \<open>SERVO\<close>, else \<open>HMI\<close> when it
  starts with \<open>GOT\<close> or contains \<open>HMI\<close>, else \<open>OTHER\<close>.
\<close>

theorem process_item_upserts_one_product:
  assumes "json_truthy (py_or (get item ''id'') (get item ''Key''))"
    and "py_or (get item ''ItemCode'') (get_default item ''Code'' (JStr [])) = JStr code"
    and "code \<noteq> []"
    and "process_item lib db (JObj item) = (db', out)"
    and "\<forall>e. out \<noteq> Failed e"
  shows "(out = Created \<or> out = Updated) \<and>
    (\<exists>p. filter (\<lambda>q. sku q = Some code) (products db') = [p] \<and>
       model p = code \<and> brand p = brand_for code \<and>
       product_category p = category_code (category_for code)) \<and>
    (list_ex (\<lambda>p. prefix p (upper code)) [''FX'', ''MR'', ''QY'', ''QX'', ''FR-''] \<longrightarrow>
       brand_for code = ''Mitsubishi Electric'') \<and>
    (\<not> list_ex (\<lambda>p. contains p (upper code)) [''FX'', ''MR'', ''QY'', ''QX'', ''FR-''] \<longrightarrow>
       brand_for code = ''Manager.io Import'') \<and>
    category_code (category_for code) =
      (if prefix ''FX'' (upper code) \<or> prefix ''Q'' (upper code) then ''PLC''
       else if prefix ''FR-'' (upper code) then ''VFD''
       else if prefix ''MR-'' (upper code) \<or> contains ''SERVO'' (upper code) then ''SERVO''
       else if prefix ''GOT'' (upper code) \<or> contains ''HMI'' (upper code) then ''HMI''
       else ''OTHER'')"
proof -
  from process_item_cases [OF assms(1-4)] assms(5)
  obtain db1 cat d flag where o: "out = Created \<or> out = Updated"
    and c: "get_or_create_category code db = Inr (db1, cat)"
    and u: "update_or_create code d db1 = Inr (db', flag)"
    and d: "brand d = brand_for code" "product_category d = category_code cat" "model d = code"
    by blast
  from get_or_create_category_code [OF c]
  have cc: "category_code cat = category_code (category_for code)" by simp
  from update_or_create_one [OF u] obtain p where
    "filter (\<lambda>q. sku q = Some code) (products db') = [p]" "brand p = brand d"
    "product_category p = product_category d" "model p = model d" by blast
  with d cc have one: "\<exists>p. filter (\<lambda>q. sku q = Some code) (products db') = [p] \<and>
       model p = code \<and> brand p = brand_for code \<and>
       product_category p = category_code (category_for code)" by simp
  have b1: "list_ex (\<lambda>p. prefix p (upper code)) [''FX'', ''MR'', ''QY'', ''QX'', ''FR-''] \<longrightarrow>
       brand_for code = ''Mitsubishi Electric''"
    using brand_for_prefix by blast
  have b2: "\<not> list_ex (\<lambda>p. contains p (upper code)) [''FX'', ''MR'', ''QY'', ''QX'', ''FR-''] \<longrightarrow>
       brand_for code = ''Manager.io Import''"
    by (simp add: brand_for_def is_mitsubishi_def)
  have cat: "category_code (category_for code) =
      (if prefix ''FX'' (upper code) \<or> prefix ''Q'' (upper code) then ''PLC''
       else if prefix ''FR-'' (upper code) then ''VFD''
       else if prefix ''MR-'' (upper code) \<or> contains ''SERVO'' (upper code) then ''SERVO''
       else if prefix ''GOT'' (upper code) \<or> contains ''HMI'' (upper code) then ''HMI''
       else ''OTHER'')"
    by (simp add: category_for_def Let_def)
  from o one b1 b2 cat show ?thesis by blast
qed

theorem process_item_upserts_one_product_witness:
  "process_item int_lib empty_catalog (JObj servo_item) = (servo_catalog, Created) \<and>
   (\<exists>p. filter (\<lambda>q. sku q = Some ''SERVO-7'') (products servo_catalog) = [p] \<and>
      model p = ''SERVO-7'' \<and> brand p = ''Manager.io Import'' \<and> product_category p = ''SERVO'')"
proof -
  have a: "json_truthy (py_or (get servo_item ''id'') (get servo_item ''Key''))"
    by (simp add: sync_defs)
  have b: "py_or (get servo_item ''ItemCode'') (get_default servo_item ''Code'' (JStr []))
      = JStr ''SERVO-7''"
    by (simp add: sync_defs)
  have c: "''SERVO-7'' \<noteq> []" by simp
  have d: "\<forall>e. Created \<noteq> Failed e" by simp
  have e: "brand_for ''SERVO-7'' = ''Manager.io Import''"
    "category_code (category_for ''SERVO-7'') = ''SERVO''"
    by (simp_all add: sync_defs)
  from process_item_upserts_one_product [OF a b c process_servo_item d] e process_servo_item
  show ?thesis by simp
qed

text \<open>
  C6 as stated fails: the code \<open>SERVO-7\<close> starts with none of the prefixes of the claim, which
  gives it the category \<open>OTHER\<close>, and the sync files it under \<open>SERVO\<close>; the code \<open>fx5u-32mr\<close>
  does not start with \<open>FX\<close>, and the sync, which tests the upper-cased code, gives it the
  Mitsubishi brand.
\<close>

theorem classification_not_by_prefix_alone:
  "claimed_category ''SERVO-7'' = ''OTHER'' \<and>
   map product_category (products (fst (process_item int_lib empty_catalog (JObj servo_item))))
     = [''SERVO''] \<and>
   \<not> claimed_mitsubishi ''fx5u-32mr'' \<and>
   brand_for ''fx5u-32mr'' = ''Mitsubishi Electric''"
  by (simp add: process_servo_item servo_catalog_def claimed_category_def claimed_mitsubishi_def
      brand_for_def is_mitsubishi_def upper_def ascii_upper_def uppercase_letters_def
      lowercase_letters_def)

end
